theory Spec2Isabelle
  imports Complex_Main "HOL-Library.AList" "HOL-Library.Sublist" "HOL-Library.Multiset"
    "HOL-Library.Log_Nat"
begin

section \<open>The in-memory store of \<^verbatim>\<open>server/storage.ts\<close>\<close>

text \<open>
  The class \<^verbatim>\<open>MemStorage\<close> keeps every table in a JavaScript \<^verbatim>\<open>Map\<close>. A \<^verbatim>\<open>Map\<close>
  iterates in insertion order, \<^verbatim>\<open>set\<close> on a key that is present replaces the value in
  place and \<^verbatim>\<open>set\<close> on a new key appends, so a \<^verbatim>\<open>Map\<close> is an association list:
  \<^verbatim>\<open>get\<close> is \<^const>\<open>map_of\<close>, \<^verbatim>\<open>set\<close> is \<^const>\<open>AList.update\<close>, \<^verbatim>\<open>delete\<close> is
  \<^const>\<open>AList.delete\<close> and \<^verbatim>\<open>values()\<close> is \<open>map snd\<close>.

  JavaScript numbers that hold identities, counters and millisecond timestamps are
  modelled as \<^typ>\<open>int\<close>: they are integers far below \<open>2^53\<close> in magnitude, which a
  double holds exactly and which the code's additions and subtractions of them keep
  exact. The hot score divides,
  so it is a \<^typ>\<open>real\<close> that is rounded to the nearest double after every operation, as
  the code's arithmetic is. A \<^verbatim>\<open>Date\<close> is the integer that \<^verbatim>\<open>getTime()\<close> returns:
  milliseconds since the epoch.
\<close>

type_synonym ('k, 'v) Map = "('k \<times> 'v) list"

abbreviation Map_get :: "('k, 'v) Map \<Rightarrow> 'k \<Rightarrow> 'v option" where
  "Map_get m k \<equiv> map_of m k"

abbreviation Map_set :: "'k \<Rightarrow> 'v \<Rightarrow> ('k, 'v) Map \<Rightarrow> ('k, 'v) Map" where
  "Map_set k v m \<equiv> AList.update k v m"

abbreviation Map_delete :: "'k \<Rightarrow> ('k, 'v) Map \<Rightarrow> ('k, 'v) Map" where
  "Map_delete k m \<equiv> AList.delete k m"

abbreviation Map_values :: "('k, 'v) Map \<Rightarrow> 'v list" where
  "Map_values m \<equiv> map snd m"

datatype vote = Up | Down

datatype error = Error string

record User =
  u_id :: int
  u_username :: string
  u_level :: "int option"
  u_avatar :: "string option"

record Author =
  a_id :: int
  a_username :: string
  a_level :: int
  a_avatar :: "string option"
  a_title :: string

record Meme =
  m_id :: int
  authorId :: "int option"
  imageUrl :: string
  caption :: "string option"
  upvotes :: int
  downvotes :: int
  createdAt :: int

record MemeWithAuthor = Meme +
  author :: "Author option"

record InsertMeme =
  im_authorId :: "int option"
  im_imageUrl :: string
  im_caption :: "string option"

record Comment =
  c_id :: int
  c_memeId :: "int option"
  c_authorId :: "int option"
  c_body :: string
  c_parentId :: "int option"
  c_upvotes :: int
  c_createdAt :: int

record InsertComment =
  ic_memeId :: "int option"
  ic_authorId :: "int option"
  ic_body :: string
  ic_parentId :: "int option"

record Resource =
  r_id :: int
  r_title :: string
  r_category :: "string option"
  r_markdown :: "string option"
  r_downloadUrl :: "string option"
  r_createdBy :: "int option"
  r_votes :: int
  r_createdAt :: int

record InsertResource =
  ir_title :: string
  ir_category :: "string option"
  ir_markdown :: "string option"
  ir_downloadUrl :: "string option"
  ir_createdBy :: "int option"

text \<open>
  The fields of \<^verbatim>\<open>MemStorage\<close> that the meme, comment, resource and vote operations
  read or write. Game sessions and newsletter subscribers are touched by none of them
  and are left out.
\<close>

record MemStorage =
  users :: "(int, User) Map"
  memes :: "(int, Meme) Map"
  comments :: "(int, Comment) Map"
  resources :: "(int, Resource) Map"
  userVotes :: "(string, vote) Map"
  userId :: int
  memeId :: int
  commentId :: int
  resourceId :: int

subsection \<open>Numbers inside template literals\<close>

text \<open>
  The vote key is built by a template literal, which renders an integer-valued number
  in decimal, with a leading minus sign when negative.
\<close>

definition digit_char :: "nat \<Rightarrow> char" where
  "digit_char d = char_of (48 + d)"

fun digits :: "nat \<Rightarrow> string" where
  "digits n = (if n < 10 then [digit_char n] else digits (n div 10) @ [digit_char (n mod 10)])"

declare digits.simps [simp del]

definition num_str :: "int \<Rightarrow> string" where
  "num_str i = (if i < 0 then CHR ''-'' # digits (nat (- i)) else digits (nat i))"

subsection \<open>Construction and creation\<close>

definition seeds :: "InsertResource list" where
  "seeds =
    [\<lparr>ir_title = ''Bulletproof Contract Template'', ir_category = Some ''contracts'',
      ir_markdown = Some (''# Bulletproof Contract Template'' @ [CHR 0x0A, CHR 0x0A] @
        ''This contract is designed to protect freelancers from scope creep, payment issues, and intellectual property disputes.''),
      ir_downloadUrl = Some ''/downloads/bulletproof-contract.pdf'', ir_createdBy = None\<rparr>,
     \<lparr>ir_title = ''Real Price Calculator'', ir_category = Some ''pricing'',
      ir_markdown = Some (''# Real Price Calculator'' @ [CHR 0x0A, CHR 0x0A] @
        ''Calculate what you should actually charge based on your experience, market rates, and client difficulty.''),
      ir_downloadUrl = Some ''/downloads/price-calculator.xlsx'', ir_createdBy = None\<rparr>,
     \<lparr>ir_title = ''Email Response Templates'', ir_category = Some ''communication'',
      ir_markdown = Some (''# Email Response Templates'' @ [CHR 0x0A, CHR 0x0A] @
        ''Professional templates for handling difficult clients, late payments, and scope creep.''),
      ir_downloadUrl = Some ''/downloads/email-templates.docx'', ir_createdBy = None\<rparr>]"

text \<open>
  \<^verbatim>\<open>{...insert, id, votes: 0, createdAt: now}\<close>: the fields of the insert record, then
  the identity, a zeroed counter and the clock reading.
\<close>

definition mkResource :: "InsertResource \<Rightarrow> int \<Rightarrow> int \<Rightarrow> Resource" where
  "mkResource ins i now =
    \<lparr>r_id = i, r_title = ir_title ins, r_category = ir_category ins,
     r_markdown = ir_markdown ins, r_downloadUrl = ir_downloadUrl ins,
     r_createdBy = ir_createdBy ins, r_votes = 0, r_createdAt = now\<rparr>"

text \<open>One turn of the \<^verbatim>\<open>forEach\<close> of \<^verbatim>\<open>seedResources\<close>; \<open>now\<close> is that turn's clock reading.\<close>

definition seedOne :: "MemStorage \<Rightarrow> InsertResource \<times> int \<Rightarrow> MemStorage" where
  "seedOne s p =
    (let i = resourceId s
     in s\<lparr>resourceId := i + 1,
          resources := Map_set i (mkResource (fst p) i (snd p)) (resources s)\<rparr>)"

definition seedResources :: "(nat \<Rightarrow> int) \<Rightarrow> MemStorage \<Rightarrow> MemStorage" where
  "seedResources clock s = foldl seedOne s (zip seeds (map clock [0..<length seeds]))"

text \<open>The constructor; \<open>clock k\<close> is the clock reading at the \<open>k\<close>-th seeded resource.\<close>

definition newMemStorage :: "(nat \<Rightarrow> int) \<Rightarrow> MemStorage" where
  "newMemStorage clock =
    seedResources clock
      \<lparr>users = [], memes = [], comments = [], resources = [], userVotes = [],
       userId = 1, memeId = 1, commentId = 1, resourceId = 1\<rparr>"

definition createMeme :: "MemStorage \<Rightarrow> InsertMeme \<Rightarrow> int \<Rightarrow> Meme \<times> MemStorage" where
  "createMeme s insertMeme now =
    (let i = memeId s;
         meme = \<lparr>m_id = i, authorId = im_authorId insertMeme, imageUrl = im_imageUrl insertMeme,
                 caption = im_caption insertMeme, upvotes = 0, downvotes = 0, createdAt = now\<rparr>
     in (meme, s\<lparr>memeId := i + 1, memes := Map_set i meme (memes s)\<rparr>))"

definition createComment :: "MemStorage \<Rightarrow> InsertComment \<Rightarrow> int \<Rightarrow> Comment \<times> MemStorage" where
  "createComment s insertComment now =
    (let i = commentId s;
         comment = \<lparr>c_id = i, c_memeId = ic_memeId insertComment,
                    c_authorId = ic_authorId insertComment, c_body = ic_body insertComment,
                    c_parentId = ic_parentId insertComment, c_upvotes = 0, c_createdAt = now\<rparr>
     in (comment, s\<lparr>commentId := i + 1, comments := Map_set i comment (comments s)\<rparr>))"

definition createResource :: "MemStorage \<Rightarrow> InsertResource \<Rightarrow> int \<Rightarrow> Resource \<times> MemStorage" where
  "createResource s insertResource now =
    (let i = resourceId s;
         resource = mkResource insertResource i now
     in (resource, s\<lparr>resourceId := i + 1, resources := Map_set i resource (resources s)\<rparr>))"

subsection \<open>Voting\<close>

text \<open>
  Each vote operation returns what the caller sees (the thrown \<^verbatim>\<open>Error\<close> or the
  updated entity) together with the store afterwards. The entity object is mutated in
  place and then stored again under its key.
\<close>

definition voteMeme :: "MemStorage \<Rightarrow> int \<Rightarrow> int \<Rightarrow> vote \<Rightarrow> (error + Meme) \<times> MemStorage" where
  "voteMeme s i uid v =
    (case Map_get (memes s) i of
       None \<Rightarrow> (Inl (Error ''Meme not found''), s)
     | Some meme \<Rightarrow>
        (let voteKey = ''meme:'' @ num_str i @ '':user:'' @ num_str uid;
             existingVote = Map_get (userVotes s) voteKey;
             meme1 = (if existingVote = Some Up then meme\<lparr>upvotes := upvotes meme - 1\<rparr> else meme);
             meme2 = (if existingVote = Some Down then meme1\<lparr>downvotes := downvotes meme1 - 1\<rparr> else meme1)
         in if existingVote \<noteq> Some v then
              (let meme3 = (if v = Up then meme2\<lparr>upvotes := upvotes meme2 + 1\<rparr> else meme2);
                   meme4 = (if v = Down then meme3\<lparr>downvotes := downvotes meme3 + 1\<rparr> else meme3)
               in (Inr meme4,
                   s\<lparr>userVotes := Map_set voteKey v (userVotes s),
                     memes := Map_set i meme4 (memes s)\<rparr>))
            else
              (Inr meme2,
               s\<lparr>userVotes := Map_delete voteKey (userVotes s),
                 memes := Map_set i meme2 (memes s)\<rparr>)))"

text \<open>
  The parameter of \<^verbatim>\<open>voteComment\<close> has the TypeScript type \<^verbatim>\<open>'up'\<close>; the body compares
  and stores whatever value it is given and always moves the \<^verbatim>\<open>upvotes\<close> counter.
\<close>

definition voteComment :: "MemStorage \<Rightarrow> int \<Rightarrow> int \<Rightarrow> vote \<Rightarrow> (error + Comment) \<times> MemStorage" where
  "voteComment s i uid v =
    (case Map_get (comments s) i of
       None \<Rightarrow> (Inl (Error ''Comment not found''), s)
     | Some comment \<Rightarrow>
        (let voteKey = ''comment:'' @ num_str i @ '':user:'' @ num_str uid;
             existingVote = Map_get (userVotes s) voteKey
         in if existingVote = Some v then
              (let comment1 = comment\<lparr>c_upvotes := c_upvotes comment - 1\<rparr>
               in (Inr comment1,
                   s\<lparr>userVotes := Map_delete voteKey (userVotes s),
                     comments := Map_set i comment1 (comments s)\<rparr>))
            else
              (let comment1 = comment\<lparr>c_upvotes := c_upvotes comment + 1\<rparr>
               in (Inr comment1,
                   s\<lparr>userVotes := Map_set voteKey v (userVotes s),
                     comments := Map_set i comment1 (comments s)\<rparr>))))"

definition voteResource :: "MemStorage \<Rightarrow> int \<Rightarrow> int \<Rightarrow> vote \<Rightarrow> (error + Resource) \<times> MemStorage" where
  "voteResource s i uid v =
    (case Map_get (resources s) i of
       None \<Rightarrow> (Inl (Error ''Resource not found''), s)
     | Some resource \<Rightarrow>
        (let voteKey = ''resource:'' @ num_str i @ '':user:'' @ num_str uid;
             existingVote = Map_get (userVotes s) voteKey
         in if existingVote = Some v then
              (let resource1 = resource\<lparr>r_votes := r_votes resource + (if v = Up then - 1 else 1)\<rparr>
               in (Inr resource1,
                   s\<lparr>userVotes := Map_delete voteKey (userVotes s),
                     resources := Map_set i resource1 (resources s)\<rparr>))
            else if existingVote \<noteq> None then
              (let resource1 = resource\<lparr>r_votes := r_votes resource + (if v = Up then 2 else - 2)\<rparr>
               in (Inr resource1,
                   s\<lparr>userVotes := Map_set voteKey v (userVotes s),
                     resources := Map_set i resource1 (resources s)\<rparr>))
            else
              (let resource1 = resource\<lparr>r_votes := r_votes resource + (if v = Up then 1 else - 1)\<rparr>
               in (Inr resource1,
                   s\<lparr>userVotes := Map_set voteKey v (userVotes s),
                     resources := Map_set i resource1 (resources s)\<rparr>))))"

subsection \<open>Double-precision arithmetic\<close>

text \<open>
  A JavaScript number is an IEEE 754 binary64 value and every arithmetic operation
  returns the exact result rounded to the nearest such value, ties to the even
  significand. \<open>binade x\<close> is the exponent \<open>e\<close> with \<open>2^e \<le> |x| < 2^(e+1)\<close>; a double in
  that range is a multiple of \<open>2^(e-52)\<close>, and \<open>fl\<close> rounds to the nearest one. The exponent
  is not bounded here: between \<open>2^-1022\<close> and \<open>2^1024\<close> that is binary64, and no score
  formed from integers below \<open>2^53\<close> leaves that range.
\<close>

definition pow2 :: "int \<Rightarrow> real" where
  "pow2 e = (if 0 \<le> e then 2 ^ nat e else 1 / 2 ^ nat (- e))"

definition binade :: "real \<Rightarrow> int" where
  "binade x = (if 1 \<le> \<bar>x\<bar> then bitlen \<lfloor>\<bar>x\<bar>\<rfloor> - 1 else - bitlen (\<lceil>1 / \<bar>x\<bar>\<rceil> - 1))"

definition rne :: "real \<Rightarrow> int" where
  "rne y = (let f = \<lfloor>y\<rfloor>; r = y - of_int f
            in if r < 1 / 2 then f else if 1 / 2 < r then f + 1 else if even f then f else f + 1)"

definition fl :: "real \<Rightarrow> real" where
  "fl x = (if x = 0 then 0 else of_int (rne (x / pow2 (binade x - 52))) * pow2 (binade x - 52))"

subsection \<open>Ranking\<close>

text \<open>
  \<^verbatim>\<open>Array.prototype.sort\<close> with a comparator is a stable sort (ECMAScript 2019): an
  element moves behind another only when the comparator says so with a positive
  number. It is modelled as insertion from the right, which yields the one stable
  arrangement whenever the comparator has the sign of a difference of keys. The
  comparator returns a JavaScript number, a \<^typ>\<open>real\<close> here.
\<close>

fun insert_cmp :: "('a \<Rightarrow> 'a \<Rightarrow> real) \<Rightarrow> 'a \<Rightarrow> 'a list \<Rightarrow> 'a list" where
  "insert_cmp cmp x [] = [x]"
| "insert_cmp cmp x (y # ys) = (if cmp x y > 0 then y # insert_cmp cmp x ys else x # y # ys)"

definition Array_sort :: "('a \<Rightarrow> 'a \<Rightarrow> real) \<Rightarrow> 'a list \<Rightarrow> 'a list" where
  "Array_sort cmp xs = foldr (insert_cmp cmp) xs []"

text \<open>
  \<^verbatim>\<open>Array.prototype.slice(start, end)\<close> on integer arguments: a negative index counts
  from the end, every index is clamped into the array, and an empty range is empty.
\<close>

definition Array_slice :: "'a list \<Rightarrow> int \<Rightarrow> int \<Rightarrow> 'a list" where
  "Array_slice xs start end =
    (let len = int (length xs);
         k = (if start < 0 then max (len + start) 0 else min start len);
         final = (if end < 0 then max (len + end) 0 else min end len)
     in take (nat (final - k)) (drop (nat k) xs))"

text \<open>
  The three comparators of \<^verbatim>\<open>getMemes\<close>, in the order of its \<^verbatim>\<open>if\<close> chain. The first two
  subtract integers. The third divides the timestamp, adds the net score and subtracts
  the two scores, each operation rounded to a double.
\<close>

definition cmp_new :: "Meme \<Rightarrow> Meme \<Rightarrow> real" where
  "cmp_new a b = real_of_int (createdAt b) - real_of_int (createdAt a)"

definition cmp_top :: "Meme \<Rightarrow> Meme \<Rightarrow> real" where
  "cmp_top a b = real_of_int (upvotes b - downvotes b) - real_of_int (upvotes a - downvotes a)"

definition cmp_hot :: "Meme \<Rightarrow> Meme \<Rightarrow> real" where
  "cmp_hot a b =
    (let aScore = fl (real_of_int (upvotes b - downvotes b) + fl (real_of_int (createdAt b) / 1000000));
         bScore = fl (real_of_int (upvotes a - downvotes a) + fl (real_of_int (createdAt a) / 1000000))
     in fl (aScore - bScore))"

definition sortMemes :: "string \<Rightarrow> Meme list \<Rightarrow> Meme list" where
  "sortMemes sortBy ms =
    (if sortBy = ''new'' then Array_sort cmp_new ms
     else if sortBy = ''top'' then Array_sort cmp_top ms
     else Array_sort cmp_hot ms)"

text \<open>\<^verbatim>\<open>author.level || 1\<close>: a missing or zero level becomes 1.\<close>

definition level_or_1 :: "int option \<Rightarrow> int" where
  "level_or_1 l = (case l of None \<Rightarrow> 1 | Some n \<Rightarrow> if n = 0 then 1 else n)"

definition getUser :: "MemStorage \<Rightarrow> int option \<Rightarrow> User option" where
  "getUser s i = (case i of None \<Rightarrow> None | Some k \<Rightarrow> Map_get (users s) k)"

definition withAuthor :: "MemStorage \<Rightarrow> Meme \<Rightarrow> MemeWithAuthor" where
  "withAuthor s meme =
    Meme.extend meme
      (MemeWithAuthor.fields
        (case getUser s (authorId meme) of
           None \<Rightarrow> None
         | Some u \<Rightarrow> Some \<lparr>a_id = u_id u, a_username = u_username u, a_level = level_or_1 (u_level u),
                            a_avatar = u_avatar u, a_title = ''Designer''\<rparr>))"

text \<open>An omitted argument is \<open>None\<close> and takes the default of the signature.\<close>

definition getMemes :: "MemStorage \<Rightarrow> int option \<Rightarrow> int option \<Rightarrow> string option \<Rightarrow> MemeWithAuthor list" where
  "getMemes s limit offset sortBy =
    (let limit1 = (case limit of None \<Rightarrow> 10 | Some l \<Rightarrow> l);
         offset1 = (case offset of None \<Rightarrow> 0 | Some k \<Rightarrow> k);
         sortBy1 = (case sortBy of None \<Rightarrow> ''hot'' | Some p \<Rightarrow> p);
         sorted_memes = sortMemes sortBy1 (Map_values (memes s));
         paginatedMemes = Array_slice sorted_memes offset1 (offset1 + limit1)
     in map (withAuthor s) paginatedMemes)"

subsection \<open>The vote routes of \<^verbatim>\<open>server/auth.ts\<close>\<close>

text \<open>
  A handler answers with a JSON body or with a status and a message. \<open>i\<close> is the parsed
  \<^verbatim>\<open>:id\<close> parameter, \<open>uid\<close> the identity of the authenticated user and \<open>bodyVote\<close> the
  \<^verbatim>\<open>vote\<close> member of the request body, \<open>None\<close> when it is absent. A thrown error is
  caught by the handler and answered with status 500.
\<close>

datatype 'a response = Json 'a | Status nat string

definition memeVoteRoute :: "MemStorage \<Rightarrow> int \<Rightarrow> int \<Rightarrow> string option \<Rightarrow> Meme response \<times> MemStorage" where
  "memeVoteRoute s i uid bodyVote =
    (if bodyVote \<noteq> Some ''up'' \<and> bodyVote \<noteq> Some ''down'' then (Status 400 ''Invalid vote type'', s)
     else case voteMeme s i uid (if bodyVote = Some ''up'' then Up else Down) of
            (Inr m, s') \<Rightarrow> (Json m, s')
          | (Inl e, s') \<Rightarrow> (Status 500 ''Failed to vote on meme'', s'))"

definition commentVoteRoute :: "MemStorage \<Rightarrow> int \<Rightarrow> int \<Rightarrow> string option \<Rightarrow> Comment response \<times> MemStorage" where
  "commentVoteRoute s i uid bodyVote =
    (case voteComment s i uid Up of
       (Inr c, s') \<Rightarrow> (Json c, s')
     | (Inl e, s') \<Rightarrow> (Status 500 ''Failed to vote on comment'', s'))"

definition resourceVoteRoute :: "MemStorage \<Rightarrow> int \<Rightarrow> int \<Rightarrow> string option \<Rightarrow> Resource response \<times> MemStorage" where
  "resourceVoteRoute s i uid bodyVote =
    (if bodyVote \<noteq> Some ''up'' \<and> bodyVote \<noteq> Some ''down'' then (Status 400 ''Invalid vote data'', s)
     else case voteResource s i uid (if bodyVote = Some ''up'' then Up else Down) of
            (Inr r, s') \<Rightarrow> (Json r, s')
          | (Inl e, s') \<Rightarrow> (Status 500 ''Failed to vote on resource'', s'))"

section \<open>Vocabulary of the specification\<close>

subsection \<open>The vote ledger\<close>

text \<open>
  The three vote operations build their key from the subject kind, the subject identity
  and the user identity. A record of the ledger belongs to a subject when its key starts
  with that subject's kind and identity.
\<close>

datatype kind = KMeme | KComment | KResource

fun kind_str :: "kind \<Rightarrow> string" where
  "kind_str KMeme = ''meme:''"
| "kind_str KComment = ''comment:''"
| "kind_str KResource = ''resource:''"

definition vkey :: "kind \<Rightarrow> int \<Rightarrow> int \<Rightarrow> string" where
  "vkey K i u = kind_str K @ num_str i @ '':user:'' @ num_str u"

definition subj :: "kind \<Rightarrow> int \<Rightarrow> string" where
  "subj K i = kind_str K @ num_str i @ '':user:''"

text \<open>The number of active records with direction \<open>d\<close> for subject \<open>i\<close> of kind \<open>K\<close>.\<close>

definition votesFor :: "kind \<Rightarrow> int \<Rightarrow> vote \<Rightarrow> (string, vote) Map \<Rightarrow> int" where
  "votesFor K i d ledger =
     int (length (filter (\<lambda>(k, v). v = d \<and> prefix (subj K i) k) ledger))"

text \<open>The counters of every stored entity are the tallies of its active records.\<close>

definition consistent :: "MemStorage \<Rightarrow> bool" where
  "consistent s \<longleftrightarrow>
    (\<forall>i m. Map_get (memes s) i = Some m \<longrightarrow>
       upvotes m = votesFor KMeme i Up (userVotes s) \<and>
       downvotes m = votesFor KMeme i Down (userVotes s)) \<and>
    (\<forall>i c. Map_get (comments s) i = Some c \<longrightarrow>
       c_upvotes c = votesFor KComment i Up (userVotes s)) \<and>
    (\<forall>i r. Map_get (resources s) i = Some r \<longrightarrow>
       r_votes r = votesFor KResource i Up (userVotes s) - votesFor KResource i Down (userVotes s))"

text \<open>
  The calls a client can make on the store. A comment vote carries no direction: the
  parameter type admits \<^verbatim>\<open>'up'\<close> only.
\<close>

datatype op =
    CreateMeme InsertMeme int
  | CreateComment InsertComment int
  | CreateResource InsertResource int
  | VoteMeme int int vote
  | VoteComment int int
  | VoteResource int int vote

fun step :: "MemStorage \<Rightarrow> op \<Rightarrow> MemStorage" where
  "step s (CreateMeme ins now) = snd (createMeme s ins now)"
| "step s (CreateComment ins now) = snd (createComment s ins now)"
| "step s (CreateResource ins now) = snd (createResource s ins now)"
| "step s (VoteMeme i uid v) = snd (voteMeme s i uid v)"
| "step s (VoteComment i uid) = snd (voteComment s i uid Up)"
| "step s (VoteResource i uid v) = snd (voteResource s i uid v)"

definition run :: "op list \<Rightarrow> MemStorage \<Rightarrow> MemStorage" where
  "run ops s = foldl step s ops"

text \<open>Adding to the counter of one direction of a meme.\<close>

fun addTo :: "vote \<Rightarrow> int \<Rightarrow> Meme \<Rightarrow> Meme" where
  "addTo Up n m = m\<lparr>upvotes := upvotes m + n\<rparr>"
| "addTo Down n m = m\<lparr>downvotes := downvotes m + n\<rparr>"

definition memeCounters :: "MemStorage \<Rightarrow> int \<Rightarrow> (int \<times> int) option" where
  "memeCounters s i = map_option (\<lambda>m. (upvotes m, downvotes m)) (Map_get (memes s) i)"

definition resourceVotes :: "MemStorage \<Rightarrow> int \<Rightarrow> int option" where
  "resourceVotes s i = map_option r_votes (Map_get (resources s) i)"

text \<open>
  The signed value of a ledger entry (\<open>up\<close> is 1, \<open>down\<close> is \<open>-1\<close>, no record is 0) and
  the entry a vote leads to: none when it repeats the entry, the vote otherwise.
\<close>

definition signed :: "vote option \<Rightarrow> int" where
  "signed e = (case e of None \<Rightarrow> 0 | Some Up \<Rightarrow> 1 | Some Down \<Rightarrow> - 1)"

definition dest :: "vote option \<Rightarrow> vote \<Rightarrow> vote option" where
  "dest e v = (if e = Some v then None else Some v)"

subsection \<open>Ranking\<close>

text \<open>
  The score the \<open>hot\<close> comparator computes for a meme, a double: the timestamp enters in
  milliseconds.
\<close>

definition hotScore :: "'a Meme_scheme \<Rightarrow> real" where
  "hotScore m = fl (real_of_int (upvotes m - downvotes m) + fl (real_of_int (createdAt m) / 1000000))"

text \<open>The same expression without rounding.\<close>

definition exactHotScore :: "'a Meme_scheme \<Rightarrow> real" where
  "exactHotScore m = real_of_int (upvotes m - downvotes m) + real_of_int (createdAt m) / 1000000"

text \<open>
  Memes with a net score of at most ten million either way and a creation time between
  the epoch and \<open>8 * 10^12\<close> milliseconds after it (the year 2223).
\<close>

definition inRange :: "'a Meme_scheme \<Rightarrow> bool" where
  "inRange m \<longleftrightarrow>
     \<bar>upvotes m - downvotes m\<bar> \<le> 10000000 \<and> 0 \<le> createdAt m \<and> createdAt m \<le> 8000000000000"

text \<open>
  The score in the words of the specification: the creation timestamp expressed in
  seconds, divided by one million.
\<close>

definition specHotScore :: "'a Meme_scheme \<Rightarrow> real" where
  "specHotScore m =
     real_of_int (upvotes m - downvotes m) + (real_of_int (createdAt m) / 1000) / 1000000"

definition descending :: "('a \<Rightarrow> real) \<Rightarrow> 'a list \<Rightarrow> bool" where
  "descending f xs = sorted_wrt (\<lambda>a b. f a \<ge> f b) xs"

text \<open>The key each policy sorts by, read off the three comparators.\<close>

definition sortKey :: "string \<Rightarrow> Meme \<Rightarrow> real" where
  "sortKey sortBy m =
    (if sortBy = ''new'' then real_of_int (createdAt m)
     else if sortBy = ''top'' then real_of_int (upvotes m - downvotes m)
     else hotScore m)"

definition by_key :: "('a \<Rightarrow> 'a \<Rightarrow> real) \<Rightarrow> ('a \<Rightarrow> real) \<Rightarrow> bool" where
  "by_key cmp key \<longleftrightarrow> (\<forall>a b. (0 < cmp a b) = (key a < key b))"

subsection \<open>Auxiliary notions of the invariant proof\<close>

fun known :: "MemStorage \<Rightarrow> kind \<Rightarrow> int \<Rightarrow> bool" where
  "known s KMeme i = (Map_get (memes s) i \<noteq> None)"
| "known s KComment i = (Map_get (comments s) i \<noteq> None)"
| "known s KResource i = (Map_get (resources s) i \<noteq> None)"

fun counter :: "MemStorage \<Rightarrow> kind \<Rightarrow> int" where
  "counter s KMeme = memeId s"
| "counter s KComment = commentId s"
| "counter s KResource = resourceId s"

definition keys_ok :: "MemStorage \<Rightarrow> bool" where
  "keys_ok s \<longleftrightarrow>
    (\<forall>k v. (k, v) \<in> set (userVotes s) \<longrightarrow>
      (\<exists>K i u. k = vkey K i u \<and> known s K i \<and> (K = KComment \<longrightarrow> v = Up)))"

definition ids_fresh :: "MemStorage \<Rightarrow> bool" where
  "ids_fresh s \<longleftrightarrow> (\<forall>K i. known s K i \<longrightarrow> i < counter s K)"

definition store_inv :: "MemStorage \<Rightarrow> bool" where
  "store_inv s \<longleftrightarrow> consistent s \<and> distinct (map fst (userVotes s)) \<and> keys_ok s \<and> ids_fresh s"

definition hit :: "vote option \<Rightarrow> vote \<Rightarrow> int" where
  "hit e d = (if e = Some d then 1 else 0)"

definition moveMeme :: "vote option \<Rightarrow> vote \<Rightarrow> Meme \<Rightarrow> Meme" where
  "moveMeme e v m =
     m\<lparr>upvotes := upvotes m - hit e Up + (if e = Some v then 0 else hit (Some v) Up),
       downvotes := downvotes m - hit e Down + (if e = Some v then 0 else hit (Some v) Down)\<rparr>"

definition castVote :: "string \<Rightarrow> vote \<Rightarrow> (string, vote) Map \<Rightarrow> (string, vote) Map" where
  "castVote k v l = (if Map_get l k = Some v then Map_delete k l else Map_set k v l)"

subsection \<open>Example stores\<close>

text \<open>
  A store with two memes and one comment on top of the seeded resources, and the
  entities it holds, for the concrete instances below.
\<close>

definition clock0 :: "nat \<Rightarrow> int" where
  "clock0 k = 1700000000000"

definition insMeme :: InsertMeme where
  "insMeme = \<lparr>im_authorId = None, im_imageUrl = ''a.png'', im_caption = None\<rparr>"

definition insComment :: InsertComment where
  "insComment = \<lparr>ic_memeId = Some 1, ic_authorId = None, ic_body = ''lol'', ic_parentId = None\<rparr>"

definition demo :: MemStorage where
  "demo = run [CreateMeme insMeme 1700000000000, CreateMeme insMeme 1700002000000,
               CreateComment insComment 1700003000000] (newMemStorage clock0)"

definition meme1 :: Meme where
  "meme1 = \<lparr>m_id = 1, authorId = None, imageUrl = ''a.png'', caption = None,
            upvotes = 0, downvotes = 0, createdAt = 1700000000000\<rparr>"

definition meme2 :: Meme where
  "meme2 = \<lparr>m_id = 2, authorId = None, imageUrl = ''a.png'', caption = None,
            upvotes = 0, downvotes = 0, createdAt = 1700002000000\<rparr>"

definition comment1 :: Comment where
  "comment1 = \<lparr>c_id = 1, c_memeId = Some 1, c_authorId = None, c_body = ''lol'',
               c_parentId = None, c_upvotes = 0, c_createdAt = 1700003000000\<rparr>"

definition demoHot :: MemStorage where
  "demoHot = snd (voteMeme demo 1 7 Up)"

definition demoOps :: "op list" where
  "demoOps = [CreateMeme insMeme 1700000000000, VoteMeme 1 7 Up, VoteMeme 1 8 Down, VoteMeme 1 7 Down,
              CreateComment insComment 1700003000000, VoteComment 1 7, VoteResource 2 7 Down,
              VoteResource 2 8 Up, VoteResource 2 7 Up]"





section \<open>Properties of the model\<close>

subsection \<open>Decimal rendering and vote keys\<close>

lemma num_str_1: "num_str 1 = ''1''"
  by code_simp

lemma num_str_2: "num_str 2 = ''2''"
  by code_simp

lemma digit_char_inj: "a < 10 \<Longrightarrow> b < 10 \<Longrightarrow> digit_char a = digit_char b \<Longrightarrow> a = b"
proof -
  assume a: "a < 10" and b: "b < 10" and e: "digit_char a = digit_char b"
  from e have "(of_char (digit_char a) :: nat) = of_char (digit_char b)" by simp
  then show "a = b" using a b by (simp add: digit_char_def)
qed

lemma digit_char_code: "d < 10 \<Longrightarrow> (of_char (digit_char d) :: nat) = 48 + d"
  by (simp add: digit_char_def)

lemma digits_nonempty: "digits n \<noteq> []"
  by (subst digits.simps) simp

lemma digits_codes: "c \<in> set (digits n) \<Longrightarrow> 48 \<le> (of_char c :: nat) \<and> (of_char c :: nat) \<le> 57"
proof (induction n rule: digits.induct)
  case (1 n)
  show ?case
  proof (cases "n < 10")
    case True
    with 1(2) show ?thesis by (simp add: digits.simps[of n] digit_char_code)
  next
    case False
    have "n mod 10 < 10" by simp
    from digit_char_code[OF this] 1(1)[OF False] 1(2) False show ?thesis
      by (auto simp add: digits.simps[of n])
  qed
qed

lemma minus_notin_digits: "CHR ''-'' \<notin> set (digits n)"
  using digits_codes[of "CHR ''-''" n] by auto

lemma colon_notin_digits: "CHR '':'' \<notin> set (digits n)"
  using digits_codes[of "CHR '':''" n] by auto

lemma digits_inj: "digits n = digits m \<Longrightarrow> n = m"
proof (induction n arbitrary: m rule: digits.induct)
  case (1 n)
  show ?case
  proof (cases "n < 10")
    case n: True
    show ?thesis
    proof (cases "m < 10")
      case True
      with n 1(2) show ?thesis
        by (simp add: digits.simps[of n] digits.simps[of m] digit_char_inj)
    next
      case False
      with n 1(2) digits_nonempty[of "m div 10"] show ?thesis
        by (simp add: digits.simps[of n] digits.simps[of m])
    qed
  next
    case n: False
    show ?thesis
    proof (cases "m < 10")
      case True
      with n 1(2) digits_nonempty[of "n div 10"] show ?thesis
        by (simp add: digits.simps[of n] digits.simps[of m])
    next
      case False
      with n 1(2) have e: "digits (n div 10) = digits (m div 10)" "digit_char (n mod 10) = digit_char (m mod 10)"
        by (simp_all add: digits.simps[of n] digits.simps[of m])
      from 1(1)[OF n e(1)] have "n div 10 = m div 10" .
      moreover have "n mod 10 = m mod 10" using e(2) by (intro digit_char_inj) simp_all
      ultimately show ?thesis by (metis div_mult_mod_eq)
    qed
  qed
qed

lemma num_str_inj: "num_str a = num_str b \<Longrightarrow> a = b"
proof -
  assume e: "num_str a = num_str b"
  have nd: "\<And>n. CHR ''-'' \<notin> set (digits n)" by (rule minus_notin_digits)
  have hd: "\<And>n k. digits n \<noteq> CHR ''-'' # k"
    using nd by (metis list.set_intros(1))
  show "a = b"
  proof (cases "a < 0"; cases "b < 0")
    assume "a < 0" "b < 0"
    with e have "digits (nat (- a)) = digits (nat (- b))" by (simp add: num_str_def)
    from digits_inj[OF this] \<open>a < 0\<close> \<open>b < 0\<close> show ?thesis by simp
  next
    assume "a < 0" "\<not> b < 0"
    with e hd[of "nat b"] show ?thesis by (simp add: num_str_def) metis
  next
    assume "\<not> a < 0" "b < 0"
    with e hd[of "nat a"] show ?thesis by (simp add: num_str_def)
  next
    assume "\<not> a < 0" "\<not> b < 0"
    with e have "digits (nat a) = digits (nat b)" by (simp add: num_str_def)
    from digits_inj[OF this] \<open>\<not> a < 0\<close> \<open>\<not> b < 0\<close> show ?thesis by simp
  qed
qed

lemma num_str_no_colon: "CHR '':'' \<notin> set (num_str a)"
  using colon_notin_digits by (simp add: num_str_def)

lemma prefix_sep:
  "c \<notin> set xs \<Longrightarrow> c \<notin> set ys \<Longrightarrow> prefix (xs @ c # r) (ys @ c # r') \<Longrightarrow> xs = ys"
proof (induction xs arbitrary: ys)
  case Nil
  then show ?case by (cases ys) auto
next
  case (Cons x xs)
  then show ?case by (cases ys) auto
qed

lemma cnt_update_fresh:
  "map_of l k = None \<Longrightarrow>
   int (length (filter Q (AList.update k v l))) = int (length (filter Q l)) + (if Q (k, v) then 1 else 0)"
  by (induction l) (auto split: if_splits)

lemma cnt_update_present:
  "distinct (map fst l) \<Longrightarrow> map_of l k = Some v0 \<Longrightarrow>
   int (length (filter Q (AList.update k v l))) =
     int (length (filter Q l)) - (if Q (k, v0) then 1 else 0) + (if Q (k, v) then 1 else 0)"
proof (induction l)
  case Nil
  then show ?case by simp
next
  case (Cons p l)
  show ?case
  proof (cases "fst p = k")
    case True
    with Cons.prems have "p = (k, v0)" by (cases p) simp
    then show ?thesis by simp
  next
    case False
    with Cons show ?thesis by (cases p) auto
  qed
qed

lemma cnt_delete_present:
  "distinct (map fst l) \<Longrightarrow> map_of l k = Some v0 \<Longrightarrow>
   int (length (filter Q (AList.delete k l))) = int (length (filter Q l)) - (if Q (k, v0) then 1 else 0)"
proof (induction l)
  case Nil
  then show ?case by simp
next
  case (Cons p l)
  show ?case
  proof (cases "fst p = k")
    case True
    with Cons.prems have p: "p = (k, v0)" and "k \<notin> fst ` set l" by (cases p; force)+
    then have "AList.delete k l = l" by simp
    with p show ?thesis by simp
  next
    case False
    with Cons show ?thesis by (cases p) auto
  qed
qed

lemma votesFor_update_fresh:
  "map_of l k = None \<Longrightarrow>
   votesFor K j d (AList.update k v l) = votesFor K j d l + (if v = d \<and> prefix (subj K j) k then 1 else 0)"
  unfolding votesFor_def by (subst cnt_update_fresh) auto

lemma votesFor_update_present:
  "distinct (map fst l) \<Longrightarrow> map_of l k = Some v0 \<Longrightarrow>
   votesFor K j d (AList.update k v l) = votesFor K j d l
      - (if v0 = d \<and> prefix (subj K j) k then 1 else 0)
      + (if v = d \<and> prefix (subj K j) k then 1 else 0)"
  unfolding votesFor_def by (subst cnt_update_present) auto

lemma votesFor_delete_present:
  "distinct (map fst l) \<Longrightarrow> map_of l k = Some v0 \<Longrightarrow>
   votesFor K j d (AList.delete k l) = votesFor K j d l
      - (if v0 = d \<and> prefix (subj K j) k then 1 else 0)"
  unfolding votesFor_def by (subst cnt_delete_present) auto

lemma votesFor_none:
  "(\<And>k v. (k, v) \<in> set l \<Longrightarrow> \<not> prefix (subj K j) k) \<Longrightarrow> votesFor K j d l = 0"
  unfolding votesFor_def by (auto simp: filter_empty_conv)

lemma prefix_key_num:
  "prefix (num_str i @ '':user:'') (num_str j @ '':user:'' @ r) \<longleftrightarrow> i = j"
proof
  assume "prefix (num_str i @ '':user:'') (num_str j @ '':user:'' @ r)"
  then have "prefix (num_str i @ CHR '':'' # ''user:'') (num_str j @ CHR '':'' # (''user:'' @ r))" by simp
  from prefix_sep[OF num_str_no_colon num_str_no_colon this] show "i = j" by (rule num_str_inj)
next
  assume "i = j" then show "prefix (num_str i @ '':user:'') (num_str j @ '':user:'' @ r)"
    by (simp add: prefix_def)
qed

lemma prefix_subj_vkey [simp]: "prefix (subj K i) (vkey K' j u) \<longleftrightarrow> K = K' \<and> i = j"
proof (cases "K = K'")
  case True
  then show ?thesis using prefix_key_num[of i j "num_str u"] by (simp add: subj_def vkey_def)
next
  case False
  then show ?thesis by (cases K; cases K') (simp_all add: subj_def vkey_def)
qed

subsection \<open>The vote operations on a stored subject\<close>

lemma votesFor_update:
  "distinct (map fst l) \<Longrightarrow>
   votesFor K j d (AList.update k v l) =
     votesFor K j d l + (if prefix (subj K j) k then hit (Some v) d - hit (map_of l k) d else 0)"
  by (cases "map_of l k") (simp_all add: votesFor_update_fresh votesFor_update_present hit_def)

lemma votesFor_delete:
  "distinct (map fst l) \<Longrightarrow>
   votesFor K j d (AList.delete k l) =
     votesFor K j d l - (if prefix (subj K j) k then hit (map_of l k) d else 0)"
proof (cases "map_of l k")
  case None
  then have "k \<notin> fst ` set l" by (simp add: map_of_eq_None_iff)
  then show ?thesis using None by (simp add: hit_def)
next
  case (Some v0)
  assume "distinct (map fst l)"
  from votesFor_delete_present[OF this Some] show ?thesis by (simp add: hit_def Some)
qed

lemma init_store:
  "newMemStorage clock = 
    \<lparr>users = [], memes = [], comments = [],
      resources = [(1, mkResource (seeds ! 0) 1 (clock 0)), (2, mkResource (seeds ! 1) 2 (clock 1)),
                   (3, mkResource (seeds ! 2) 3 (clock 2))],
      userVotes = [], userId = 1, memeId = 1, commentId = 1, resourceId = 4\<rparr>"
  by (simp add: newMemStorage_def seedResources_def seeds_def seedOne_def upt_conv_Cons Let_def numeral_2_eq_2)

lemma votesFor_Nil [simp]: "votesFor K j d [] = 0"
  by (simp add: votesFor_def)

lemma inv_init: "store_inv (newMemStorage clock)"
  by (auto simp add: init_store store_inv_def consistent_def keys_ok_def ids_fresh_def mkResource_def elim!: known.elims split: if_splits)

lemma voteMeme_Some:
  assumes "Map_get (memes s) i = Some m"
  shows "voteMeme s i uid v =
     (Inr (moveMeme (Map_get (userVotes s) (vkey KMeme i uid)) v m),
      s\<lparr>userVotes := castVote (vkey KMeme i uid) v (userVotes s),
        memes := Map_set i (moveMeme (Map_get (userVotes s) (vkey KMeme i uid)) v m) (memes s)\<rparr>)"
proof (cases "Map_get (userVotes s) (vkey KMeme i uid)")
  case None
  then show ?thesis using assms
    by (cases v) (simp_all add: voteMeme_def vkey_def moveMeme_def castVote_def hit_def Let_def)
next
  case (Some e)
  then show ?thesis using assms
    by (cases v; cases e; cases m) (simp_all add: voteMeme_def vkey_def moveMeme_def castVote_def hit_def Let_def)
qed

lemma votesFor_castVote:
  "distinct (map fst l) \<Longrightarrow>
   votesFor K j d (castVote k v l) =
     votesFor K j d l + (if prefix (subj K j) k
        then (if Map_get l k = Some v then 0 else hit (Some v) d) - hit (map_of l k) d else 0)"
  by (simp add: castVote_def votesFor_update votesFor_delete)

lemma consistent_voteMeme:
  assumes "consistent s" "distinct (map fst (userVotes s))"
  shows "consistent (snd (voteMeme s i uid v))"
proof (cases "Map_get (memes s) i")
  case None
  then show ?thesis using assms by (simp add: voteMeme_def)
next
  case (Some m)
  show ?thesis
    using assms Some
    by (auto simp add: voteMeme_Some consistent_def update_conv' votesFor_castVote moveMeme_def)
qed

lemma subj_prefix_vkey: "prefix (subj K i) (vkey K i u)"
  by simp

lemma vkey_inj: "vkey K i u = vkey K' j u' \<longleftrightarrow> K = K' \<and> i = j \<and> u = u'"
proof
  assume e: "vkey K i u = vkey K' j u'"
  have "prefix (subj K i) (vkey K' j u')" using subj_prefix_vkey[of K i u] e by simp
  then have kj: "K = K'" "i = j" by simp_all
  with e have "num_str u = num_str u'" by (simp add: vkey_def)
  with kj show "K = K' \<and> i = j \<and> u = u'" by (simp add: num_str_inj)
next
  assume "K = K' \<and> i = j \<and> u = u'" then show "vkey K i u = vkey K' j u'" by simp
qed

lemma voteComment_Some:
  assumes "Map_get (comments s) i = Some c"
  shows "voteComment s i uid v =
     (Inr (c\<lparr>c_upvotes := c_upvotes c + (if Map_get (userVotes s) (vkey KComment i uid) = Some v then - 1 else 1)\<rparr>),
      s\<lparr>userVotes := castVote (vkey KComment i uid) v (userVotes s),
        comments := Map_set i (c\<lparr>c_upvotes := c_upvotes c + (if Map_get (userVotes s) (vkey KComment i uid) = Some v then - 1 else 1)\<rparr>) (comments s)\<rparr>)"
  using assms by (simp add: voteComment_def vkey_def castVote_def Let_def)

lemma voteResource_Some:
  assumes "Map_get (resources s) i = Some r"
  shows "voteResource s i uid v =
     (Inr (r\<lparr>r_votes := r_votes r + (signed (dest (Map_get (userVotes s) (vkey KResource i uid)) v) - signed (Map_get (userVotes s) (vkey KResource i uid)))\<rparr>),
      s\<lparr>userVotes := castVote (vkey KResource i uid) v (userVotes s),
        resources := Map_set i (r\<lparr>r_votes := r_votes r + (signed (dest (Map_get (userVotes s) (vkey KResource i uid)) v) - signed (Map_get (userVotes s) (vkey KResource i uid)))\<rparr>) (resources s)\<rparr>)"
proof (cases "Map_get (userVotes s) (vkey KResource i uid)")
  case None
  then show ?thesis using assms
    by (cases v) (simp_all add: voteResource_def vkey_def castVote_def signed_def dest_def Let_def)
next
  case (Some e)
  then show ?thesis using assms
    by (cases v; cases e) (simp_all add: voteResource_def vkey_def castVote_def signed_def dest_def Let_def)
qed

lemma consistent_voteResource:
  assumes "consistent s" "distinct (map fst (userVotes s))"
  shows "consistent (snd (voteResource s i uid v))"
proof (cases "Map_get (resources s) i")
  case None
  then show ?thesis using assms by (simp add: voteResource_def)
next
  case (Some r)
  show ?thesis
    using assms Some
    by (cases v; cases "Map_get (userVotes s) (vkey KResource i uid)")
       (auto simp add: voteResource_Some consistent_def update_conv' votesFor_castVote signed_def dest_def hit_def split: vote.splits)
qed

lemma comment_ledger_up:
  assumes "keys_ok s" "Map_get (userVotes s) (vkey KComment i uid) = Some e"
  shows "e = Up"
proof -
  from assms(2) have "(vkey KComment i uid, e) \<in> set (userVotes s)" by (rule map_of_SomeD)
  with assms(1) obtain K j u where "vkey KComment i uid = vkey K j u" "K = KComment \<longrightarrow> e = Up"
    unfolding keys_ok_def by blast
  then show ?thesis by (simp add: vkey_inj)
qed

subsection \<open>Preservation of the ledger invariant\<close>

lemma consistent_voteComment:
  assumes "consistent s" "distinct (map fst (userVotes s))" "keys_ok s"
  shows "consistent (snd (voteComment s i uid Up))"
proof (cases "Map_get (comments s) i")
  case None
  then show ?thesis using assms by (simp add: voteComment_def)
next
  case (Some c)
  have up: "\<And>e. Map_get (userVotes s) (vkey KComment i uid) = Some e \<Longrightarrow> e = Up"
    using assms(3) by (rule comment_ledger_up)
  show ?thesis
    using assms(1,2) Some up
    by (cases "Map_get (userVotes s) (vkey KComment i uid)")
       (auto simp add: voteComment_Some consistent_def update_conv' votesFor_castVote hit_def)
qed

lemma distinct_castVote: "distinct (map fst l) \<Longrightarrow> distinct (map fst (castVote k v l))"
  by (simp add: castVote_def distinct_update distinct_delete)

lemma set_Map_set: "set (Map_set k v l) \<subseteq> insert (k, v) (set l)"
  by (induction l) auto

lemma set_castVote: "(k', v') \<in> set (castVote k v l) \<Longrightarrow> (k', v') \<in> set l \<or> (k' = k \<and> v' = v)"
  using set_Map_set[of k v l]
  by (auto simp: castVote_def AList.delete_eq split: if_splits)

lemma known_voteMeme [simp]: "known (snd (voteMeme s i uid v)) K j = known s K j"
proof (cases "Map_get (memes s) i")
  case None
  then show ?thesis by (simp add: voteMeme_def)
next
  case (Some x)
  then show ?thesis by (cases K) (auto simp: voteMeme_Some update_conv')
qed

lemma known_voteComment [simp]: "known (snd (voteComment s i uid v)) K j = known s K j"
proof (cases "Map_get (comments s) i")
  case None
  then show ?thesis by (simp add: voteComment_def)
next
  case (Some x)
  then show ?thesis by (cases K) (auto simp: voteComment_Some update_conv')
qed

lemma known_voteResource [simp]: "known (snd (voteResource s i uid v)) K j = known s K j"
proof (cases "Map_get (resources s) i")
  case None
  then show ?thesis by (simp add: voteResource_def)
next
  case (Some x)
  then show ?thesis by (cases K) (auto simp: voteResource_Some update_conv')
qed

lemma counter_voteMeme [simp]: "counter (snd (voteMeme s i uid v)) K = counter s K"
proof (cases "Map_get (memes s) i")
  case None
  then show ?thesis by (simp add: voteMeme_def)
next
  case (Some x)
  then show ?thesis by (cases K) (simp_all add: voteMeme_Some)
qed

lemma counter_voteComment [simp]: "counter (snd (voteComment s i uid v)) K = counter s K"
proof (cases "Map_get (comments s) i")
  case None
  then show ?thesis by (simp add: voteComment_def)
next
  case (Some x)
  then show ?thesis by (cases K) (simp_all add: voteComment_Some)
qed

lemma counter_voteResource [simp]: "counter (snd (voteResource s i uid v)) K = counter s K"
proof (cases "Map_get (resources s) i")
  case None
  then show ?thesis by (simp add: voteResource_def)
next
  case (Some x)
  then show ?thesis by (cases K) (simp_all add: voteResource_Some)
qed

lemma keys_ok_cast:
  assumes "keys_ok s" and "\<And>K i. known s K i \<Longrightarrow> known s' K i"
    and "userVotes s' = castVote (vkey K0 i0 u0) v (userVotes s)"
    and "known s' K0 i0" and "K0 = KComment \<longrightarrow> v = Up"
  shows "keys_ok s'"
  unfolding keys_ok_def
proof (intro allI impI)
  fix k' v' assume "(k', v') \<in> set (userVotes s')"
  then have "(k', v') \<in> set (userVotes s) \<or> (k' = vkey K0 i0 u0 \<and> v' = v)"
    using set_castVote by (simp add: assms(3))
  then show "\<exists>K i u. k' = vkey K i u \<and> known s' K i \<and> (K = KComment \<longrightarrow> v' = Up)"
  proof
    assume "(k', v') \<in> set (userVotes s)"
    with assms(1) obtain K i u where "k' = vkey K i u" "known s K i" "K = KComment \<longrightarrow> v' = Up"
      unfolding keys_ok_def by blast
    with assms(2) show ?thesis by blast
  next
    assume "k' = vkey K0 i0 u0 \<and> v' = v"
    with assms(4,5) show ?thesis by blast
  qed
qed

lemma keys_ok_same:
  assumes "keys_ok s" and "\<And>K i. known s K i \<Longrightarrow> known s' K i" and "userVotes s' = userVotes s"
  shows "keys_ok s'"
  using assms unfolding keys_ok_def by metis

lemma inv_voteMeme: "store_inv s \<Longrightarrow> store_inv (snd (voteMeme s i uid v))"
proof (cases "Map_get (memes s) i")
  case None
  assume "store_inv s" then show ?thesis using None by (simp add: voteMeme_def)
next
  case (Some m)
  assume a: "store_inv s"
  then have c: "consistent s" and d: "distinct (map fst (userVotes s))" and k: "keys_ok s" and f: "ids_fresh s"
    by (simp_all add: store_inv_def)
  have "consistent (snd (voteMeme s i uid v))" using c d by (rule consistent_voteMeme)
  moreover have "distinct (map fst (userVotes (snd (voteMeme s i uid v))))"
    using d by (simp add: voteMeme_Some[OF Some] distinct_castVote)
  moreover have "keys_ok (snd (voteMeme s i uid v))"
  proof (rule keys_ok_cast[OF k])
    show "userVotes (snd (voteMeme s i uid v)) = castVote (vkey KMeme i uid) v (userVotes s)"
      by (simp add: voteMeme_Some[OF Some])
    show "known (snd (voteMeme s i uid v)) KMeme i" by (simp only: known_voteMeme known_voteComment known_voteResource) (simp add: Some)
  qed simp_all
  moreover have "ids_fresh (snd (voteMeme s i uid v))"
    using f by (simp add: ids_fresh_def)
  ultimately show ?thesis by (simp add: store_inv_def)
qed

lemma inv_voteComment: "store_inv s \<Longrightarrow> store_inv (snd (voteComment s i uid Up))"
proof (cases "Map_get (comments s) i")
  case None
  assume "store_inv s" then show ?thesis using None by (simp add: voteComment_def)
next
  case (Some m)
  assume a: "store_inv s"
  then have c: "consistent s" and d: "distinct (map fst (userVotes s))" and k: "keys_ok s" and f: "ids_fresh s"
    by (simp_all add: store_inv_def)
  have "consistent (snd (voteComment s i uid Up))" using c d k by (rule consistent_voteComment)
  moreover have "distinct (map fst (userVotes (snd (voteComment s i uid Up))))"
    using d by (simp add: voteComment_Some[OF Some] distinct_castVote)
  moreover have "keys_ok (snd (voteComment s i uid Up))"
  proof (rule keys_ok_cast[OF k])
    show "userVotes (snd (voteComment s i uid Up)) = castVote (vkey KComment i uid) Up (userVotes s)"
      by (simp add: voteComment_Some[OF Some])
    show "known (snd (voteComment s i uid Up)) KComment i" by (simp only: known_voteMeme known_voteComment known_voteResource) (simp add: Some)
  qed simp_all
  moreover have "ids_fresh (snd (voteComment s i uid Up))"
    using f by (simp add: ids_fresh_def)
  ultimately show ?thesis by (simp add: store_inv_def)
qed

lemma inv_voteResource: "store_inv s \<Longrightarrow> store_inv (snd (voteResource s i uid v))"
proof (cases "Map_get (resources s) i")
  case None
  assume "store_inv s" then show ?thesis using None by (simp add: voteResource_def)
next
  case (Some m)
  assume a: "store_inv s"
  then have c: "consistent s" and d: "distinct (map fst (userVotes s))" and k: "keys_ok s" and f: "ids_fresh s"
    by (simp_all add: store_inv_def)
  have "consistent (snd (voteResource s i uid v))" using c d by (rule consistent_voteResource)
  moreover have "distinct (map fst (userVotes (snd (voteResource s i uid v))))"
    using d by (simp add: voteResource_Some[OF Some] distinct_castVote)
  moreover have "keys_ok (snd (voteResource s i uid v))"
  proof (rule keys_ok_cast[OF k])
    show "userVotes (snd (voteResource s i uid v)) = castVote (vkey KResource i uid) v (userVotes s)"
      by (simp add: voteResource_Some[OF Some])
    show "known (snd (voteResource s i uid v)) KResource i" by (simp only: known_voteMeme known_voteComment known_voteResource) (simp add: Some)
  qed simp_all
  moreover have "ids_fresh (snd (voteResource s i uid v))"
    using f by (simp add: ids_fresh_def)
  ultimately show ?thesis by (simp add: store_inv_def)
qed

lemma votesFor_unknown:
  assumes "keys_ok s" "\<not> known s K i"
  shows "votesFor K i d (userVotes s) = 0"
proof (rule votesFor_none)
  fix k v assume "(k, v) \<in> set (userVotes s)"
  with assms(1) obtain K' j u where "k = vkey K' j u" "known s K' j"
    unfolding keys_ok_def by blast
  with assms(2) show "\<not> prefix (subj K i) k" by auto
qed

lemma fresh_counter: "ids_fresh s \<Longrightarrow> \<not> known s K (counter s K)"
  unfolding ids_fresh_def by (metis less_irrefl)

lemma inv_createMeme: "store_inv s \<Longrightarrow> store_inv (snd (createMeme s ins now))"
proof -
  assume a: "store_inv s"
  then have c: "consistent s" and d: "distinct (map fst (userVotes s))" and k: "keys_ok s" and f: "ids_fresh s"
    by (simp_all add: store_inv_def)
  let ?s = "snd (createMeme s ins now)"
  have z: "\<And>d. votesFor KMeme (memeId s) d (userVotes s) = 0"
    using votesFor_unknown[OF k, of KMeme "memeId s"] fresh_counter[OF f, of KMeme] by simp
  have "consistent ?s"
    using c z by (auto simp add: createMeme_def consistent_def Let_def update_conv')
  moreover have "distinct (map fst (userVotes ?s))"
    using d by (simp add: createMeme_def Let_def)
  moreover have "keys_ok ?s"
    by (rule keys_ok_same[OF k]) (case_tac K, auto simp add: createMeme_def Let_def update_conv')
  moreover have "ids_fresh ?s"
    unfolding ids_fresh_def
  proof (intro allI impI)
    fix K i assume "known ?s K i"
    then have "known s K i \<or> (K = KMeme \<and> i = memeId s)"
      by (cases K) (auto simp add: createMeme_def Let_def update_conv' split: if_splits)
    moreover have "counter s K \<le> counter ?s K" "counter ?s KMeme = memeId s + 1"
      by (cases K; simp add: createMeme_def Let_def)+
    moreover have "known s K i \<Longrightarrow> i < counter s K"
      using f unfolding ids_fresh_def by blast
    ultimately show "i < counter ?s K" by fastforce
  qed
  ultimately show ?thesis by (simp add: store_inv_def)
qed

lemma inv_createComment: "store_inv s \<Longrightarrow> store_inv (snd (createComment s ins now))"
proof -
  assume a: "store_inv s"
  then have c: "consistent s" and d: "distinct (map fst (userVotes s))" and k: "keys_ok s" and f: "ids_fresh s"
    by (simp_all add: store_inv_def)
  let ?s = "snd (createComment s ins now)"
  have z: "\<And>d. votesFor KComment (commentId s) d (userVotes s) = 0"
    using votesFor_unknown[OF k, of KComment "commentId s"] fresh_counter[OF f, of KComment] by simp
  have "consistent ?s"
    using c z by (auto simp add: createComment_def consistent_def Let_def update_conv')
  moreover have "distinct (map fst (userVotes ?s))"
    using d by (simp add: createComment_def Let_def)
  moreover have "keys_ok ?s"
    by (rule keys_ok_same[OF k]) (case_tac K, auto simp add: createComment_def Let_def update_conv')
  moreover have "ids_fresh ?s"
    unfolding ids_fresh_def
  proof (intro allI impI)
    fix K i assume "known ?s K i"
    then have "known s K i \<or> (K = KComment \<and> i = commentId s)"
      by (cases K) (auto simp add: createComment_def Let_def update_conv' split: if_splits)
    moreover have "counter s K \<le> counter ?s K" "counter ?s KComment = commentId s + 1"
      by (cases K; simp add: createComment_def Let_def)+
    moreover have "known s K i \<Longrightarrow> i < counter s K"
      using f unfolding ids_fresh_def by blast
    ultimately show "i < counter ?s K" by fastforce
  qed
  ultimately show ?thesis by (simp add: store_inv_def)
qed

lemma inv_createResource: "store_inv s \<Longrightarrow> store_inv (snd (createResource s ins now))"
proof -
  assume a: "store_inv s"
  then have c: "consistent s" and d: "distinct (map fst (userVotes s))" and k: "keys_ok s" and f: "ids_fresh s"
    by (simp_all add: store_inv_def)
  let ?s = "snd (createResource s ins now)"
  have z: "\<And>d. votesFor KResource (resourceId s) d (userVotes s) = 0"
    using votesFor_unknown[OF k, of KResource "resourceId s"] fresh_counter[OF f, of KResource] by simp
  have "consistent ?s"
    using c z by (auto simp add: createResource_def consistent_def Let_def update_conv' mkResource_def)
  moreover have "distinct (map fst (userVotes ?s))"
    using d by (simp add: createResource_def Let_def)
  moreover have "keys_ok ?s"
    by (rule keys_ok_same[OF k]) (case_tac K, auto simp add: createResource_def Let_def update_conv')
  moreover have "ids_fresh ?s"
    unfolding ids_fresh_def
  proof (intro allI impI)
    fix K i assume "known ?s K i"
    then have "known s K i \<or> (K = KResource \<and> i = resourceId s)"
      by (cases K) (auto simp add: createResource_def Let_def update_conv' split: if_splits)
    moreover have "counter s K \<le> counter ?s K" "counter ?s KResource = resourceId s + 1"
      by (cases K; simp add: createResource_def Let_def)+
    moreover have "known s K i \<Longrightarrow> i < counter s K"
      using f unfolding ids_fresh_def by blast
    ultimately show "i < counter ?s K" by fastforce
  qed
  ultimately show ?thesis by (simp add: store_inv_def)
qed

lemma inv_step: "store_inv s \<Longrightarrow> store_inv (step s x)"
  by (cases x) (simp_all add: inv_createMeme inv_createComment inv_createResource inv_voteMeme inv_voteComment inv_voteResource)

lemma inv_run: "store_inv s \<Longrightarrow> store_inv (run ops s)"
  unfolding run_def by (induction ops arbitrary: s) (simp_all add: inv_step)

subsection \<open>Rounding to a double\<close>

lemma pow2_powr: "pow2 e = 2 powr (of_int e)"
  by (simp add: pow2_def powr_real_of_int' powr_minus power_int_def field_simps)

lemma pow2_pos [simp]: "0 < pow2 e"
  by (simp add: pow2_powr)

lemma pow2_neq0 [simp]: "pow2 e \<noteq> 0"
  by (simp add: pow2_powr)

lemma pow2_nonneg [simp]: "0 \<le> pow2 e"
  by (simp add: pow2_powr)

lemma pow2_mono: "a \<le> b \<Longrightarrow> pow2 a \<le> pow2 b"
  by (simp add: pow2_powr)

lemma pow2_less_iff: "pow2 a < pow2 b \<longleftrightarrow> a < b"
  by (simp add: pow2_powr)

lemma pow2_add: "pow2 (a + b) = pow2 a * pow2 b"
  by (simp add: pow2_powr powr_add)

lemma pow2_nat: "pow2 (int n) = 2 ^ n"
  by (simp add: pow2_def)

lemma pow2_neg_nat: "pow2 (- int n) = 1 / 2 ^ n"
  by (cases "n = 0") (simp_all add: pow2_def)

lemma binade_bounds:
  assumes "x \<noteq> 0"
  shows "pow2 (binade x) \<le> \<bar>x\<bar> \<and> \<bar>x\<bar> < pow2 (binade x + 1)"
proof (cases "1 \<le> \<bar>x\<bar>")
  case True
  let ?n = "\<lfloor>\<bar>x\<bar>\<rfloor>"
  have n: "0 < ?n" using True by linarith
  from bitlen_bounds[OF n] have b: "2 ^ nat (bitlen ?n - 1) \<le> ?n" "?n < 2 ^ nat (bitlen ?n)"
    by simp_all
  have bp: "1 \<le> bitlen ?n" using n by (auto simp: bitlen_alt_def)
  have e: "binade x = bitlen ?n - 1" using True by (simp add: binade_def)
  have "pow2 (binade x) = of_int (2 ^ nat (bitlen ?n - 1))"
    using bp by (simp add: e pow2_def)
  also have "\<dots> \<le> of_int ?n" using b(1) by (simp only: of_int_le_iff)
  also have "\<dots> \<le> \<bar>x\<bar>" by simp
  finally have lo: "pow2 (binade x) \<le> \<bar>x\<bar>" .
  have "?n + 1 \<le> 2 ^ nat (bitlen ?n)" using b(2) by simp
  then have "of_int (?n + 1) \<le> (of_int (2 ^ nat (bitlen ?n)) :: real)" by (simp only: of_int_le_iff)
  then have "of_int ?n + 1 \<le> (2 ^ nat (bitlen ?n) :: real)" by simp
  moreover have "\<bar>x\<bar> < of_int ?n + 1" by linarith
  moreover have "pow2 (binade x + 1) = 2 ^ nat (bitlen ?n)"
    using bp by (simp add: e pow2_def)
  ultimately have "\<bar>x\<bar> < pow2 (binade x + 1)" by linarith
  with lo show ?thesis by simp
next
  case False
  then have a: "0 < \<bar>x\<bar>" "\<bar>x\<bar> < 1" using assms by simp_all
  define y where "y = 1 / \<bar>x\<bar>"
  define m where "m = \<lceil>y\<rceil> - 1"
  define k where "k = nat (bitlen m)"
  have y: "1 < y" using a by (simp add: y_def)
  have my: "of_int m < y" "y \<le> of_int m + 1" unfolding m_def by linarith+
  have m: "0 < m" using y my(2) by linarith
  have bp: "1 \<le> bitlen m" using m by (auto simp: bitlen_alt_def)
  then have kp: "bitlen m = int k" "0 < k" by (simp_all add: k_def)
  have k1: "nat (bitlen m - 1) = k - 1" using bp by (simp add: k_def nat_diff_distrib)
  from bitlen_bounds[OF m] have b: "2 ^ (k - 1) \<le> m" "m < 2 ^ k"
    unfolding k1 k_def[symmetric] by simp_all
  have e: "binade x = - int k" using False by (simp add: binade_def y_def m_def kp(1)[symmetric])
  have "m + 1 \<le> 2 ^ k" using b(2) by simp
  then have "of_int (m + 1) \<le> (of_int (2 ^ k) :: real)" by (simp only: of_int_le_iff)
  then have "of_int m + 1 \<le> (2 ^ k :: real)" by simp
  with my(2) have "y \<le> 2 ^ k" by linarith
  then have "1 \<le> 2 ^ k * \<bar>x\<bar>" using a by (simp add: y_def field_simps)
  then have lo: "pow2 (binade x) \<le> \<bar>x\<bar>"
    by (simp add: e pow2_neg_nat field_simps)
  have "(of_int (2 ^ (k - 1)) :: real) \<le> of_int m" using b(1) by (simp only: of_int_le_iff)
  then have "(2 ^ (k - 1) :: real) \<le> of_int m" by simp
  with my(1) have "2 ^ (k - 1) < y" by linarith
  then have "2 ^ (k - 1) * \<bar>x\<bar> < 1" using a by (simp add: y_def field_simps)
  moreover have "binade x + 1 = - int (k - 1)" using kp(2) by (simp add: e)
  ultimately have "\<bar>x\<bar> < pow2 (binade x + 1)" by (simp add: pow2_neg_nat field_simps)
  with lo show ?thesis by simp
qed



lemma binade_less:
  assumes "x \<noteq> 0" "\<bar>x\<bar> < pow2 k"
  shows "binade x < k"
proof -
  from binade_bounds[OF assms(1)] assms(2) have "pow2 (binade x) < pow2 k" by linarith
  then show ?thesis by (simp add: pow2_less_iff)
qed

lemma rne_bounds: "\<lfloor>y\<rfloor> \<le> rne y \<and> rne y \<le> \<lfloor>y\<rfloor> + 1"
  by (simp add: rne_def Let_def)

lemma rne_err: "\<bar>of_int (rne y) - y\<bar> \<le> 1 / 2"
  unfolding rne_def Let_def by (auto simp: abs_if) linarith+

lemma rne_of_int [simp]: "rne (of_int k) = k"
  by (simp add: rne_def)

lemma fl_zero [simp]: "fl 0 = 0"
  by (simp add: fl_def)

lemma fl_scaled_ge:
  assumes "x \<noteq> 0"
  shows "pow2 52 \<le> \<bar>x\<bar> / pow2 (binade x - 52)"
proof -
  have "pow2 52 * pow2 (binade x - 52) = pow2 (binade x)"
    by (simp add: pow2_add[symmetric])
  with binade_bounds[OF assms] have "pow2 52 * pow2 (binade x - 52) \<le> \<bar>x\<bar>" by simp
  then show ?thesis by (simp add: pos_le_divide_eq)
qed

lemma fl_pos: "0 < x \<Longrightarrow> 0 < fl x"
proof -
  assume x: "0 < x"
  let ?y = "x / pow2 (binade x - 52)"
  have "pow2 52 \<le> ?y" using fl_scaled_ge[of x] x by simp
  moreover have "1 \<le> pow2 52" by (simp add: pow2_def)
  ultimately have "1 \<le> ?y" by linarith
  then have "1 \<le> \<lfloor>?y\<rfloor>" by linarith
  with rne_bounds[of ?y] have "0 < rne ?y" by linarith
  then show ?thesis using x by (simp add: fl_def)
qed

lemma fl_neg: "x < 0 \<Longrightarrow> fl x < 0"
proof -
  assume x: "x < 0"
  let ?y = "x / pow2 (binade x - 52)"
  have "pow2 52 \<le> - ?y" using fl_scaled_ge[of x] x by simp
  moreover have "2 \<le> pow2 52" by (simp add: pow2_def)
  ultimately have "?y \<le> - 2" by linarith
  then have "\<lfloor>?y\<rfloor> \<le> - 2" by linarith
  with rne_bounds[of ?y] have "rne ?y < 0" by linarith
  then show ?thesis using x by (simp add: fl_def mult_neg_pos)
qed

lemma fl_sign: "(0 < fl x) = (0 < x)"
  using fl_pos[of x] fl_neg[of x] fl_zero by (cases "x = 0"; cases "0 < x") (auto simp: not_less order.order_iff_strict)

lemma fl_eq_0_iff: "(fl x = 0) = (x = 0)"
  using fl_pos[of x] fl_neg[of x] by (cases "x = 0"; cases "0 < x") (auto simp: not_less order.order_iff_strict)

lemma fl_err:
  assumes "\<bar>x\<bar> < pow2 k"
  shows "\<bar>fl x - x\<bar> \<le> pow2 (k - 54)"
proof (cases "x = 0")
  case True
  then show ?thesis using less_imp_le[OF pow2_pos[of "k - 54"]] by simp
next
  case False
  let ?u = "pow2 (binade x - 52)"
  let ?y = "x / ?u"
  have "fl x - x = (of_int (rne ?y) - ?y) * ?u" using False by (simp add: fl_def field_simps)
  then have "\<bar>fl x - x\<bar> = \<bar>of_int (rne ?y) - ?y\<bar> * ?u"
    using less_imp_le[OF pow2_pos[of "binade x - 52"]] by (simp add: abs_mult)
  also have "\<dots> \<le> (1 / 2) * ?u" using rne_err[of ?y] by (intro mult_right_mono) simp_all
  also have "\<dots> = pow2 (binade x - 53)"
    using pow2_add[of "binade x - 53" 1] by (simp add: pow2_def[of 1])
  also have "\<dots> \<le> pow2 (k - 54)" using binade_less[OF False assms] by (intro pow2_mono) simp
  finally show ?thesis .
qed

lemma fl_of_int:
  assumes "\<bar>n\<bar> < 2 ^ 53"
  shows "fl (of_int n) = of_int n"
proof (cases "n = 0")
  case True
  then show ?thesis by simp
next
  case False
  let ?x = "real_of_int n"
  have x: "?x \<noteq> 0" using False by simp
  have "\<bar>?x\<bar> < pow2 53" using assms by (simp add: pow2_def flip: of_int_abs)
  from binade_less[OF x this] have hi: "binade ?x \<le> 52" by simp
  have "pow2 0 \<le> \<bar>?x\<bar>" using False by (simp add: pow2_def flip: of_int_abs)
  then have "pow2 0 < pow2 (binade ?x + 1)" using binade_bounds[OF x] by linarith
  then have lo: "0 \<le> binade ?x" by (simp add: pow2_less_iff)
  define j where "j = nat (52 - binade ?x)"
  have u: "pow2 (binade ?x - 52) = 1 / 2 ^ j"
    using hi pow2_neg_nat[of j] by (simp add: j_def)
  have "?x / pow2 (binade ?x - 52) = of_int (n * 2 ^ j)" by (simp add: u)
  then have "rne (?x / pow2 (binade ?x - 52)) = n * 2 ^ j" by (simp only: rne_of_int)
  then show ?thesis using x by (simp add: fl_def u)
qed


lemma fl_numeral:
  assumes "(numeral w :: int) < 2 ^ 53"
  shows "fl (numeral w) = numeral w"
  using fl_of_int[of "numeral w"] assms by simp

lemma fl_one [simp]: "fl 1 = 1"
  using fl_of_int[of 1] by simp

lemma pow2_values:
  "pow2 20 = 1048576" "pow2 21 = 2097152" "pow2 22 = 4194304" "pow2 23 = 8388608"
  "pow2 25 = 33554432" "pow2 (- 32) = 1 / 4294967296" "pow2 (- 31) = 1 / 2147483648"
  "pow2 (- 30) = 1 / 1073741824" "pow2 (- 29) = 1 / 536870912" "pow2 (- 83) = 1 / 2 ^ 83"
  by (simp_all add: pow2_def)

subsection \<open>Sorting and slicing\<close>

lemma set_insert_cmp [simp]: "set (insert_cmp cmp x ys) = insert x (set ys)"
  by (induction ys) auto

lemma mset_insert_cmp [simp]: "mset (insert_cmp cmp x ys) = add_mset x (mset ys)"
  by (induction ys) auto

lemma mset_Array_sort: "mset (Array_sort cmp xs) = mset xs"
  unfolding Array_sort_def by (induction xs) auto

lemma descending_insert_cmp:
  assumes "by_key cmp key" "descending key ys"
  shows "descending key (insert_cmp cmp x ys)"
  using assms(2)
proof (induction ys)
  case Nil
  then show ?case by (simp add: descending_def)
next
  case (Cons y ys)
  from assms(1) have c: "\<And>a b. (cmp a b > 0) = (key a < key b)" by (simp add: by_key_def)
  from Cons show ?case
    by (auto simp add: descending_def c)
qed

lemma descending_Array_sort: "by_key cmp key \<Longrightarrow> descending key (Array_sort cmp xs)"
proof (induction xs)
  case Nil
  then show ?case by (simp add: Array_sort_def descending_def)
next
  case (Cons x xs)
  then have "descending key (Array_sort cmp xs)" by simp
  from descending_insert_cmp[OF Cons.prems this] show ?case by (simp add: Array_sort_def)
qed



lemma by_key_hot: "by_key cmp_hot hotScore"
  by (simp add: by_key_def cmp_hot_def hotScore_def Let_def fl_sign)


lemma comparator_zero_iff_tie:
  "((if sortBy = ''new'' then cmp_new else if sortBy = ''top'' then cmp_top else cmp_hot) a b = 0)
     = (sortKey sortBy a = sortKey sortBy b)"
  by (auto simp add: sortKey_def cmp_new_def cmp_top_def cmp_hot_def hotScore_def Let_def fl_eq_0_iff)

lemma sortMemes_alt:
  "sortMemes sortBy ms = Array_sort (if sortBy = ''new'' then cmp_new else if sortBy = ''top'' then cmp_top else cmp_hot) ms"
  by (simp add: sortMemes_def)

lemma hotScore_withAuthor [simp]: "hotScore (withAuthor s m) = hotScore m"
  by (simp add: hotScore_def withAuthor_def Meme.defs)

lemma exactHotScore_withAuthor [simp]: "exactHotScore (withAuthor s m) = exactHotScore m"
  by (simp add: exactHotScore_def withAuthor_def Meme.defs)

lemma inRange_withAuthor [simp]: "inRange (withAuthor s m) = inRange m"
  by (simp add: inRange_def withAuthor_def Meme.defs)

lemma hotScore_close:
  assumes "inRange m"
  shows "\<bar>hotScore m - exactHotScore m\<bar> \<le> pow2 (- 29) + pow2 (- 31)"
proof -
  define n where "n = real_of_int (upvotes m - downvotes m)"
  define t where "t = real_of_int (createdAt m) / 1000000"
  have "\<bar>real_of_int (upvotes m - downvotes m)\<bar> \<le> real_of_int 10000000"
    using assms unfolding inRange_def of_int_abs[symmetric] of_int_le_iff by simp
  then have nb: "\<bar>n\<bar> \<le> 10000000"
    by (simp add: n_def)
  have "real_of_int 0 \<le> real_of_int (createdAt m)" "real_of_int (createdAt m) \<le> real_of_int 8000000000000"
    using assms unfolding inRange_def of_int_le_iff by simp_all
  then have tb: "0 \<le> t" "t \<le> 8000000"
    by (simp_all add: t_def)
  have "\<bar>t\<bar> < pow2 23"
    using tb by (simp add: pow2_values)
  from fl_err[OF this] have e1: "\<bar>fl t - t\<bar> \<le> pow2 (- 31)"
    by simp
  have "pow2 (- 31) \<le> 1"
    by (simp add: pow2_values)
  with nb tb e1 have "\<bar>n + fl t\<bar> < pow2 25"
    unfolding pow2_values by linarith
  from fl_err[OF this] have e2: "\<bar>fl (n + fl t) - (n + fl t)\<bar> \<le> pow2 (- 29)"
    by simp
  have "hotScore m = fl (n + fl t)" "exactHotScore m = n + t"
    by (simp_all add: hotScore_def exactHotScore_def n_def t_def)
  with e1 e2 show ?thesis
    by linarith
qed

lemma exact_gap:
  assumes "exactHotScore a < exactHotScore b"
  shows "exactHotScore a + 1 / 1000000 \<le> exactHotScore b"
proof -
  define A where "A = (upvotes a - downvotes a) * 1000000 + createdAt a"
  define B where "B = (upvotes b - downvotes b) * 1000000 + createdAt b"
  have e: "exactHotScore a = real_of_int A / 1000000" "exactHotScore b = real_of_int B / 1000000"
    by (simp_all add: exactHotScore_def A_def B_def field_simps)
  from assms have "real_of_int A < real_of_int B"
    by (simp add: e)
  then have "A + 1 \<le> B"
    by simp
  then have "real_of_int (A + 1) \<le> real_of_int B"
    by (simp only: of_int_le_iff)
  then show ?thesis
    by (simp add: e field_simps)
qed

lemma hotScore_strict:
  assumes "inRange a" "inRange b" "exactHotScore a < exactHotScore b"
  shows "hotScore a < hotScore b"
  using hotScore_close[OF assms(1)] hotScore_close[OF assms(2)] exact_gap[OF assms(3)]
  unfolding pow2_values by linarith

lemma descending_exact:
  assumes "descending hotScore xs" "\<forall>m\<in>set xs. inRange m"
  shows "descending exactHotScore xs"
  unfolding descending_def
proof (rule sorted_wrt_mono_rel[OF _ assms(1)[unfolded descending_def]])
  fix x y assume "x \<in> set xs" "y \<in> set xs" "hotScore y \<le> hotScore x"
  with assms(2) hotScore_strict[of x y] show "exactHotScore y \<le> exactHotScore x"
    by fastforce
qed

lemma set_Array_slice: "set (Array_slice xs a b) \<subseteq> set xs"
  unfolding Array_slice_def Let_def
  using set_take_subset set_drop_subset by fast

lemma set_Array_sort [simp]: "set (Array_sort cmp xs) = set xs"
  using mset_Array_sort[of cmp xs] by (metis set_mset_mset)

lemma set_sortMemes [simp]: "set (sortMemes sortBy ms) = set ms"
  by (simp add: sortMemes_def)

lemma getMemes_inRange:
  assumes "\<forall>m\<in>set (Map_values (memes s)). inRange m"
  shows "\<forall>m\<in>set (getMemes s limit offset sortBy). inRange m"
  using assms set_Array_slice unfolding getMemes_def Let_def
  by (fastforce simp add: image_iff)

lemma descending_take: "descending f xs \<Longrightarrow> descending f (take n xs)"
  unfolding descending_def by (rule sorted_wrt_take)
lemma descending_drop: "descending f xs \<Longrightarrow> descending f (drop n xs)"
  unfolding descending_def by (rule sorted_wrt_drop)
lemma descending_slice: "descending f xs \<Longrightarrow> descending f (Array_slice xs a b)"
  by (simp add: Array_slice_def Let_def descending_take descending_drop)
lemma descending_map: "descending (\<lambda>x. f (g x)) xs \<Longrightarrow> descending f (map g xs)"
  by (simp add: descending_def sorted_wrt_map)

lemma slice_past_end: "int (length xs) \<le> a \<Longrightarrow> Array_slice xs a b = []"
  by (auto simp add: Array_slice_def Let_def)

lemma slice_take_drop: "0 \<le> a \<Longrightarrow> 0 \<le> n \<Longrightarrow> Array_slice xs a (a + n) = take (nat n) (drop (nat a) xs)"
  by (auto simp add: Array_slice_def Let_def min_def)

lemma length_sortMemes [simp]: "length (sortMemes sortBy ms) = length ms"
  unfolding sortMemes_alt using mset_Array_sort by (metis size_mset)

subsection \<open>The example stores, evaluated\<close>

lemma demo_memes: "memes demo = [(1, meme1), (2, meme2)]"
  by (simp add: demo_def run_def init_store createMeme_def createComment_def insMeme_def meme1_def meme2_def Let_def)

lemma demo_comments: "comments demo = [(1, comment1)]"
  by (simp add: demo_def run_def init_store createMeme_def createComment_def insComment_def comment1_def Let_def)

lemma demo_userVotes: "userVotes demo = []"
  by (simp add: demo_def run_def init_store createMeme_def createComment_def Let_def)

lemma demo_resources: "resources demo = resources (newMemStorage clock0)"
  by (simp add: demo_def run_def createMeme_def createComment_def Let_def)

lemma demo_resource_2: "Map_get (resources demo) 2 = Some (mkResource (seeds ! 1) 2 1700000000000)"
  by (simp add: demo_resources init_store clock0_def)

subsection \<open>Single transitions of the vote operations\<close>

lemma voteMeme_fresh:
  "Map_get (memes s) i = Some m \<Longrightarrow> Map_get (userVotes s) (vkey KMeme i uid) = None \<Longrightarrow>
   voteMeme s i uid d = (Inr (addTo d 1 m),
      s\<lparr>userVotes := Map_set (vkey KMeme i uid) d (userVotes s), memes := Map_set i (addTo d 1 m) (memes s)\<rparr>)"
  by (cases d) (simp_all add: voteMeme_def vkey_def Let_def)

lemma voteMeme_toggle:
  "Map_get (memes s) i = Some m \<Longrightarrow> Map_get (userVotes s) (vkey KMeme i uid) = Some d \<Longrightarrow>
   voteMeme s i uid d = (Inr (addTo d (- 1) m),
      s\<lparr>userVotes := Map_delete (vkey KMeme i uid) (userVotes s), memes := Map_set i (addTo d (- 1) m) (memes s)\<rparr>)"
  by (cases d) (simp_all add: voteMeme_def vkey_def Let_def)

lemma voteMeme_switch:
  "Map_get (memes s) i = Some m \<Longrightarrow> Map_get (userVotes s) (vkey KMeme i uid) = Some d' \<Longrightarrow> d' \<noteq> d \<Longrightarrow>
   voteMeme s i uid d = (Inr (addTo d 1 (addTo d' (- 1) m)),
      s\<lparr>userVotes := Map_set (vkey KMeme i uid) d (userVotes s), memes := Map_set i (addTo d 1 (addTo d' (- 1) m)) (memes s)\<rparr>)"
  by (cases d; cases d') (simp_all add: voteMeme_def vkey_def Let_def)

lemma vkey_12: "vkey K i 1 \<noteq> vkey K i 2"
  by (simp add: vkey_inj)

lemma meme_scenario:
  assumes m: "Map_get (memes s) i = Some m" "upvotes m = 0" "downvotes m = 0"
    and f: "Map_get (userVotes s) (vkey KMeme i 1) = None" "Map_get (userVotes s) (vkey KMeme i 2) = None"
    and st: "s1 = snd (voteMeme s i 1 Up)" "s2 = snd (voteMeme s1 i 1 Up)"
            "s3 = snd (voteMeme s2 i 1 Down)" "s4 = snd (voteMeme s3 i 2 Up)"
  shows "memeCounters s1 i = Some (1, 0) \<and> memeCounters s2 i = Some (0, 0) \<and>
         memeCounters s3 i = Some (0, 1) \<and> memeCounters s4 i = Some (1, 1)"
proof -
  have e1: "s1 = s\<lparr>userVotes := Map_set (vkey KMeme i 1) Up (userVotes s), memes := Map_set i (addTo Up 1 m) (memes s)\<rparr>"
    unfolding st using voteMeme_fresh[OF m(1) f(1), of Up] by simp
  have g1: "Map_get (memes s1) i = Some (addTo Up 1 m)" "Map_get (userVotes s1) (vkey KMeme i 1) = Some Up"
    "Map_get (userVotes s1) (vkey KMeme i 2) = None"
    using f vkey_12[of KMeme i] by (simp_all add: e1 update_conv')
  have e2: "s2 = s1\<lparr>userVotes := Map_delete (vkey KMeme i 1) (userVotes s1), memes := Map_set i (addTo Up (- 1) (addTo Up 1 m)) (memes s1)\<rparr>"
    unfolding st(2) using voteMeme_toggle[OF g1(1) g1(2)] by simp
  have g2: "Map_get (memes s2) i = Some (addTo Up (- 1) (addTo Up 1 m))" "Map_get (userVotes s2) (vkey KMeme i 1) = None"
    "Map_get (userVotes s2) (vkey KMeme i 2) = None"
    using g1 vkey_12[of KMeme i] by (simp_all add: e2 update_conv' delete_conv')
  have e3: "s3 = s2\<lparr>userVotes := Map_set (vkey KMeme i 1) Down (userVotes s2), memes := Map_set i (addTo Down 1 (addTo Up (- 1) (addTo Up 1 m))) (memes s2)\<rparr>"
    unfolding st(3) using voteMeme_fresh[OF g2(1) g2(2), of Down] by simp
  have g3: "Map_get (memes s3) i = Some (addTo Down 1 (addTo Up (- 1) (addTo Up 1 m)))"
    "Map_get (userVotes s3) (vkey KMeme i 2) = None"
    using g2 vkey_12[of KMeme i] by (simp_all add: e3 update_conv')
  have e4: "s4 = s3\<lparr>userVotes := Map_set (vkey KMeme i 2) Up (userVotes s3), memes := Map_set i (addTo Up 1 (addTo Down 1 (addTo Up (- 1) (addTo Up 1 m)))) (memes s3)\<rparr>"
    unfolding st(4) using voteMeme_fresh[OF g3(1) g3(2), of Up] by simp
  have g4: "Map_get (memes s4) i = Some (addTo Up 1 (addTo Down 1 (addTo Up (- 1) (addTo Up 1 m))))"
    by (simp add: e4 update_conv')
  show ?thesis
    using m(2,3) by (simp add: memeCounters_def g1 g2 g3 g4)
qed

lemma resource_scenario:
  assumes r: "Map_get (resources s) i = Some r" "r_votes r = 0"
    and f: "Map_get (userVotes s) (vkey KResource i 1) = None"
  shows "resourceVotes (snd (voteResource s i 1 Up)) i = Some 1 \<and>
         resourceVotes (snd (voteResource (snd (voteResource s i 1 Up)) i 1 Down)) i = Some (- 1) \<and>
         resourceVotes (snd (voteResource (snd (voteResource (snd (voteResource s i 1 Up)) i 1 Down)) i 1 Down)) i = Some 0"
proof -
  let ?k = "vkey KResource i 1"
  let ?s1 = "snd (voteResource s i 1 Up)"
  let ?s2 = "snd (voteResource ?s1 i 1 Down)"
  let ?s3 = "snd (voteResource ?s2 i 1 Down)"
  have g1: "Map_get (resources ?s1) i = Some (r\<lparr>r_votes := 1\<rparr>)" "Map_get (userVotes ?s1) ?k = Some Up"
    using r f by (simp_all add: voteResource_Some[OF r(1)] update_conv' castVote_def signed_def dest_def)
  have g2: "Map_get (resources ?s2) i = Some (r\<lparr>r_votes := - 1\<rparr>)" "Map_get (userVotes ?s2) ?k = Some Down"
    using g1(2) by (simp_all add: voteResource_Some[OF g1(1)] update_conv' castVote_def signed_def dest_def)
  have g3: "Map_get (resources ?s3) i = Some (r\<lparr>r_votes := 0\<rparr>)"
    using g2(2) by (simp_all add: voteResource_Some[OF g2(1)] update_conv' castVote_def signed_def dest_def)
  show ?thesis by (simp add: resourceVotes_def g1 g2 g3)
qed

lemma voteResource_delta:
  assumes "Map_get (resources s) i = Some r"
  shows "voteResource s i uid v =
     (Inr (r\<lparr>r_votes := r_votes r + (signed (dest (Map_get (userVotes s) (vkey KResource i uid)) v)
                                       - signed (Map_get (userVotes s) (vkey KResource i uid)))\<rparr>),
      s\<lparr>userVotes := (if Map_get (userVotes s) (vkey KResource i uid) = Some v
                       then Map_delete (vkey KResource i uid) (userVotes s)
                       else Map_set (vkey KResource i uid) v (userVotes s)),
        resources := Map_set i
          (r\<lparr>r_votes := r_votes r + (signed (dest (Map_get (userVotes s) (vkey KResource i uid)) v)
                                     - signed (Map_get (userVotes s) (vkey KResource i uid)))\<rparr>)
          (resources s)\<rparr>)"
  using voteResource_Some[OF assms] by (simp add: castVote_def)

subsection \<open>Further evaluations and derived transitions\<close>

lemma num_str_7: "num_str 7 = ''7''"
  by code_simp

lemma num_str_8: "num_str 8 = ''8''"
  by code_simp

lemma vkey_comment_1_7: "vkey KComment 1 7 = ''comment:1:user:7''"
  by (simp add: vkey_def num_str_1 num_str_7)

lemma demoHot_memes: "memes demoHot = [(1, meme1\<lparr>upvotes := 1\<rparr>), (2, meme2)]"
  by (simp add: demoHot_def voteMeme_Some[of demo 1 meme1] demo_memes demo_userVotes moveMeme_def hit_def meme1_def)

lemma cmp_hot_demo: "cmp_hot (meme1\<lparr>upvotes := 1\<rparr>) meme2 = 1"
  by (simp add: cmp_hot_def meme1_def meme2_def fl_numeral)








lemma cmp_new_demo: "cmp_new meme1 meme2 = 2000000"
  by (simp add: cmp_new_def meme1_def meme2_def)

lemma sort_hot_demo: "sortMemes ''hot'' [meme1\<lparr>upvotes := 1\<rparr>, meme2] = [meme2, meme1\<lparr>upvotes := 1\<rparr>]"
  by (simp add: sortMemes_def Array_sort_def cmp_hot_demo)

lemma sort_new_demo: "sortMemes ''new'' [meme1, meme2] = [meme2, meme1]"
  by (simp add: sortMemes_def Array_sort_def cmp_new_demo)

lemma getMemes_demoHot:
  "getMemes demoHot None None None = [withAuthor demoHot meme2, withAuthor demoHot (meme1\<lparr>upvotes := 1\<rparr>)]"
  by (simp add: getMemes_def demoHot_memes sort_hot_demo Array_slice_def)

lemma m_id_withAuthor [simp]: "m_id (withAuthor s m) = m_id m"
  by (simp add: withAuthor_def Meme.defs)

lemma specHotScore_withAuthor [simp]: "specHotScore (withAuthor s m) = specHotScore m"
  by (simp add: specHotScore_def withAuthor_def Meme.defs)

lemma specHot_demo: "specHotScore meme2 < specHotScore (meme1\<lparr>upvotes := 1\<rparr>)"
  by (simp add: specHotScore_def meme1_def meme2_def)

lemma getMemes_demo_negative:
  "getMemes demo (Some 10) (Some (- 1)) (Some ''new'') = [withAuthor demo meme1]"
  by (simp add: getMemes_def demo_memes sort_new_demo Array_slice_def)

lemma demoOps_run:
  "memes (run demoOps (newMemStorage clock0)) = [(1, meme1\<lparr>downvotes := 2\<rparr>)] \<and>
   comments (run demoOps (newMemStorage clock0)) = [(1, comment1\<lparr>c_upvotes := 1\<rparr>)] \<and>
   Map_get (resources (run demoOps (newMemStorage clock0))) 2 = Some ((mkResource (seeds ! 1) 2 1700000000000)\<lparr>r_votes := 2\<rparr>) \<and>
   userVotes (run demoOps (newMemStorage clock0)) =
     [(''meme:1:user:7'', Down), (''meme:1:user:8'', Down), (''comment:1:user:7'', Up),
      (''resource:2:user:7'', Up), (''resource:2:user:8'', Up)]"
  by (simp add: demoOps_def run_def init_store createMeme_def createComment_def voteMeme_def voteComment_def
      voteResource_def num_str_1 num_str_2 num_str_7 num_str_8 insMeme_def insComment_def meme1_def comment1_def
      mkResource_def clock0_def Let_def)

lemma Map_delete_fresh:
  "Map_get l k = None \<Longrightarrow> Map_delete k (Map_set k v l) = l"
  by (simp add: delete_update_same map_of_eq_None_iff)

lemma voteMeme_twice:
  assumes "Map_get (memes s) i = Some m" "Map_get (userVotes s) (vkey KMeme i uid) = None"
  shows "snd (voteMeme (snd (voteMeme s i uid d)) i uid d) = s"
proof -
  let ?s1 = "snd (voteMeme s i uid d)"
  have e1: "?s1 = s\<lparr>userVotes := Map_set (vkey KMeme i uid) d (userVotes s), memes := Map_set i (addTo d 1 m) (memes s)\<rparr>"
    by (simp add: voteMeme_fresh[OF assms])
  have g: "Map_get (memes ?s1) i = Some (addTo d 1 m)" "Map_get (userVotes ?s1) (vkey KMeme i uid) = Some d"
    by (simp_all add: e1 update_conv')
  have m: "addTo d (- 1) (addTo d 1 m) = m"
    by (cases d) simp_all
  show ?thesis
    by (simp add: voteMeme_toggle[OF g] m) (simp add: e1 update_triv[OF assms(1)] Map_delete_fresh[OF assms(2)])
qed

lemma voteComment_twice:
  assumes "Map_get (comments s) i = Some c" "Map_get (userVotes s) (vkey KComment i uid) = None"
  shows "snd (voteComment (snd (voteComment s i uid Up)) i uid Up) = s"
proof -
  let ?s1 = "snd (voteComment s i uid Up)"
  have e1: "?s1 = s\<lparr>userVotes := Map_set (vkey KComment i uid) Up (userVotes s),
                     comments := Map_set i (c\<lparr>c_upvotes := c_upvotes c + 1\<rparr>) (comments s)\<rparr>"
    using assms(2) by (simp add: voteComment_Some[OF assms(1)] castVote_def)
  have g: "Map_get (comments ?s1) i = Some (c\<lparr>c_upvotes := c_upvotes c + 1\<rparr>)"
    "Map_get (userVotes ?s1) (vkey KComment i uid) = Some Up"
    by (simp_all add: e1 update_conv')
  show ?thesis
    using g(2) by (simp add: voteComment_Some[OF g(1)] castVote_def)
      (simp add: e1 update_triv[OF assms(1)] Map_delete_fresh[OF assms(2)])
qed

lemma voteResource_twice:
  assumes "Map_get (resources s) i = Some r" "Map_get (userVotes s) (vkey KResource i uid) = None"
  shows "snd (voteResource (snd (voteResource s i uid d)) i uid d) = s"
proof -
  let ?s1 = "snd (voteResource s i uid d)"
  let ?r1 = "r\<lparr>r_votes := r_votes r + signed (Some d)\<rparr>"
  have e1: "?s1 = s\<lparr>userVotes := Map_set (vkey KResource i uid) d (userVotes s),
                     resources := Map_set i ?r1 (resources s)\<rparr>"
    using assms(2) by (simp add: voteResource_Some[OF assms(1)] castVote_def dest_def signed_def)
  have g: "Map_get (resources ?s1) i = Some ?r1"
    "Map_get (userVotes ?s1) (vkey KResource i uid) = Some d"
    by (simp_all add: e1 update_conv')
  show ?thesis
    using g(2) by (simp add: voteResource_Some[OF g(1)] castVote_def dest_def)
      (simp add: e1 signed_def update_triv[OF assms(1)] Map_delete_fresh[OF assms(2)])
qed

lemma commentVoteRoute_stored:
  assumes "Map_get (comments s) i = Some c"
  shows "commentVoteRoute s i uid bodyVote =
    (Json (c\<lparr>c_upvotes := c_upvotes c + (if Map_get (userVotes s) (vkey KComment i uid) = Some Up then - 1 else 1)\<rparr>),
     s\<lparr>userVotes := (if Map_get (userVotes s) (vkey KComment i uid) = Some Up
                      then Map_delete (vkey KComment i uid) (userVotes s)
                      else Map_set (vkey KComment i uid) Up (userVotes s)),
       comments := Map_set i
         (c\<lparr>c_upvotes := c_upvotes c + (if Map_get (userVotes s) (vkey KComment i uid) = Some Up then - 1 else 1)\<rparr>)
         (comments s)\<rparr>)"
  by (simp add: commentVoteRoute_def voteComment_Some[OF assms] castVote_def)

section \<open>The claims\<close>

text \<open>
  C1 (as amended). Ranking with the \<open>hot\<close> policy, which is also the default, orders the
  memes in descending order of \<open>(upvotes - downvotes) + t / 1000000\<close> where \<open>t\<close> is the
  creation timestamp in milliseconds, as \<^verbatim>\<open>getTime()\<close> returns it; the sorted collection
  is a rearrangement of the input. The order is that of the score as the code computes
  it, in double precision; for memes in the range of \<open>inRange\<close> rounding never reverses
  or merges two different exact scores, so the order is also descending in the exact
  value of the expression. With the timestamp in seconds, as the claim has it, the
  order differs: a meme that is one point ahead is overtaken by one that is 2000 seconds
  younger.
\<close>

theorem hot_order:
  "descending hotScore (sortMemes ''hot'' ms) \<and> mset (sortMemes ''hot'' ms) = mset ms \<and>
   descending hotScore (getMemes s limit offset None) \<and>
   descending hotScore (getMemes s limit offset (Some ''hot'')) \<and>
   ((\<forall>m\<in>set ms. inRange m) \<longrightarrow> descending exactHotScore (sortMemes ''hot'' ms)) \<and>
   ((\<forall>m\<in>set (Map_values (memes s)). inRange m) \<longrightarrow>
      descending exactHotScore (getMemes s limit offset None) \<and>
      descending exactHotScore (getMemes s limit offset (Some ''hot'')))"
proof -
  have d: "descending hotScore (sortMemes ''hot'' ms)" for ms
    by (simp add: sortMemes_def descending_Array_sort[OF by_key_hot])
  have g: "descending hotScore (getMemes s limit offset sortBy)" if "sortBy = None \<or> sortBy = Some ''hot''" for sortBy
    unfolding getMemes_def Let_def
    using that by (intro descending_map) (auto simp add: descending_slice d)
  have e: "descending exactHotScore (sortMemes ''hot'' ms)" if "\<forall>m\<in>set ms. inRange m"
    using that by (intro descending_exact[OF d]) simp
  have h: "descending exactHotScore (getMemes s limit offset sortBy)"
    if "sortBy = None \<or> sortBy = Some ''hot''" "\<forall>m\<in>set (Map_values (memes s)). inRange m" for sortBy
    using that by (intro descending_exact[OF g] getMemes_inRange)
  from d g e h show ?thesis
    by (simp add: sortMemes_def mset_Array_sort)
qed

theorem hot_order_witness:
  "Map_values (memes demoHot) = [meme1\<lparr>upvotes := 1\<rparr>, meme2] \<and>
   inRange (meme1\<lparr>upvotes := 1\<rparr>) \<and> inRange meme2 \<and>
   descending hotScore (getMemes demoHot None None None) \<and>
   descending exactHotScore (getMemes demoHot None None None) \<and>
   map m_id (getMemes demoHot None None None) = [2, 1]"
proof -
  have v: "Map_values (memes demoHot) = [meme1\<lparr>upvotes := 1\<rparr>, meme2]"
    by (simp add: demoHot_memes)
  have r: "inRange (meme1\<lparr>upvotes := 1\<rparr>)" "inRange meme2"
    by (simp_all add: inRange_def meme1_def meme2_def)
  then have q: "\<forall>m\<in>set (Map_values (memes demoHot)). inRange m"
    by (simp add: v)
  have i: "map m_id (getMemes demoHot None None None) = [2, 1]"
    by (simp add: getMemes_demoHot meme1_def meme2_def)
  from hot_order[of "[]" demoHot None None] q have
    "descending hotScore (getMemes demoHot None None None)"
    "descending exactHotScore (getMemes demoHot None None None)"
    by blast+
  with v r i show ?thesis
    by simp
qed

theorem hot_seconds_counterexample:
  "map m_id (getMemes demoHot None None None) = [2, 1] \<and>
   \<not> descending specHotScore (getMemes demoHot None None None)"
  using specHot_demo by (simp add: getMemes_demoHot descending_def meme1_def meme2_def)

text \<open>
  C2. After any finite sequence of creations and votes on a freshly constructed store,
  the counters of every stored entity are the tallies of the active records of its
  ledger: for a meme, \<open>upvotes\<close> is the number of its \<open>up\<close> records and \<open>downvotes\<close> the
  number of its \<open>down\<close> records; for a comment, \<open>upvotes\<close> is the number of its \<open>up\<close>
  records; for a resource, \<open>votes\<close> is the number of \<open>up\<close> records minus the number of
  \<open>down\<close> records. A vote that fails leaves the store as it was, so the sequence may
  contain failing votes as well.
\<close>

theorem counters_match_ledger: "consistent (run ops (newMemStorage clock))"
  using inv_run[OF inv_init] by (simp add: store_inv_def)

theorem counters_match_ledger_witness:
  "Map_get (memes (run demoOps (newMemStorage clock0))) 1 = Some (meme1\<lparr>downvotes := 2\<rparr>) \<and>
   votesFor KMeme 1 Up (userVotes (run demoOps (newMemStorage clock0))) = 0 \<and>
   votesFor KMeme 1 Down (userVotes (run demoOps (newMemStorage clock0))) = 2 \<and>
   Map_get (comments (run demoOps (newMemStorage clock0))) 1 = Some (comment1\<lparr>c_upvotes := 1\<rparr>) \<and>
   votesFor KComment 1 Up (userVotes (run demoOps (newMemStorage clock0))) = 1 \<and>
   Map_get (resources (run demoOps (newMemStorage clock0))) 2 =
     Some ((mkResource (seeds ! 1) 2 1700000000000)\<lparr>r_votes := 2\<rparr>) \<and>
   votesFor KResource 2 Up (userVotes (run demoOps (newMemStorage clock0))) -
     votesFor KResource 2 Down (userVotes (run demoOps (newMemStorage clock0))) = 2"
proof -
  let ?s = "run demoOps (newMemStorage clock0)"
  have m: "Map_get (memes ?s) 1 = Some (meme1\<lparr>downvotes := 2\<rparr>)"
    and c: "Map_get (comments ?s) 1 = Some (comment1\<lparr>c_upvotes := 1\<rparr>)"
    and r: "Map_get (resources ?s) 2 = Some ((mkResource (seeds ! 1) 2 1700000000000)\<lparr>r_votes := 2\<rparr>)"
    using demoOps_run by simp_all
  from counters_match_ledger[of demoOps clock0] m c r
  have "upvotes (meme1\<lparr>downvotes := 2\<rparr>) = votesFor KMeme 1 Up (userVotes ?s)"
    "downvotes (meme1\<lparr>downvotes := 2\<rparr>) = votesFor KMeme 1 Down (userVotes ?s)"
    "c_upvotes (comment1\<lparr>c_upvotes := 1\<rparr>) = votesFor KComment 1 Up (userVotes ?s)"
    "r_votes ((mkResource (seeds ! 1) 2 1700000000000)\<lparr>r_votes := 2\<rparr>) =
       votesFor KResource 2 Up (userVotes ?s) - votesFor KResource 2 Down (userVotes ?s)"
    unfolding consistent_def by blast+
  with m c r show ?thesis
    by (simp add: meme1_def)
qed

text \<open>
  C3. For a meme that is in the store, any user and any direction \<open>d\<close>, \<^verbatim>\<open>voteMeme\<close>
  follows the toggle/switch state machine. With no record under the key of the meme
  and the user it records \<open>d\<close> and adds 1 to the \<open>d\<close> counter; with a record equal to
  \<open>d\<close> it deletes the record and subtracts 1 from the \<open>d\<close> counter; with a record \<open>d'\<close>
  other than \<open>d\<close> it overwrites the record with \<open>d\<close>, subtracts 1 from the \<open>d'\<close> counter
  and adds 1 to the \<open>d\<close> counter. From counters (0, 0): user 1 voting up gives (1, 0),
  user 1 voting up again gives (0, 0), user 1 voting down gives (0, 1) and user 2 voting
  up gives (1, 1).
\<close>

theorem voteMeme_state_machine:
  assumes "Map_get (memes s) i = Some m"
  shows "(Map_get (userVotes s) (vkey KMeme i uid) = None \<longrightarrow>
            voteMeme s i uid d = (Inr (addTo d 1 m),
              s\<lparr>userVotes := Map_set (vkey KMeme i uid) d (userVotes s),
                memes := Map_set i (addTo d 1 m) (memes s)\<rparr>)) \<and>
         (Map_get (userVotes s) (vkey KMeme i uid) = Some d \<longrightarrow>
            voteMeme s i uid d = (Inr (addTo d (- 1) m),
              s\<lparr>userVotes := Map_delete (vkey KMeme i uid) (userVotes s),
                memes := Map_set i (addTo d (- 1) m) (memes s)\<rparr>)) \<and>
         (\<forall>d'. Map_get (userVotes s) (vkey KMeme i uid) = Some d' \<and> d' \<noteq> d \<longrightarrow>
            voteMeme s i uid d = (Inr (addTo d 1 (addTo d' (- 1) m)),
              s\<lparr>userVotes := Map_set (vkey KMeme i uid) d (userVotes s),
                memes := Map_set i (addTo d 1 (addTo d' (- 1) m)) (memes s)\<rparr>)) \<and>
         (upvotes m = 0 \<and> downvotes m = 0 \<and>
          Map_get (userVotes s) (vkey KMeme i 1) = None \<and> Map_get (userVotes s) (vkey KMeme i 2) = None \<longrightarrow>
            memeCounters (snd (voteMeme s i 1 Up)) i = Some (1, 0) \<and>
            memeCounters (snd (voteMeme (snd (voteMeme s i 1 Up)) i 1 Up)) i = Some (0, 0) \<and>
            memeCounters (snd (voteMeme (snd (voteMeme (snd (voteMeme s i 1 Up)) i 1 Up)) i 1 Down)) i = Some (0, 1) \<and>
            memeCounters (snd (voteMeme (snd (voteMeme (snd (voteMeme (snd (voteMeme s i 1 Up)) i 1 Up)) i 1 Down)) i 2 Up)) i = Some (1, 1))"
  using assms voteMeme_fresh[OF assms] voteMeme_toggle[OF assms] voteMeme_switch[OF assms]
    meme_scenario[OF assms _ _ _ _ refl refl refl refl]
  by blast

theorem voteMeme_state_machine_witness:
  "Map_get (memes demo) 1 = Some meme1 \<and> Map_get (userVotes demo) (vkey KMeme 1 1) = None \<and>
   Map_get (userVotes demo) (vkey KMeme 1 2) = None \<and> upvotes meme1 = 0 \<and> downvotes meme1 = 0 \<and>
   fst (voteMeme demo 1 1 Up) = Inr (meme1\<lparr>upvotes := 1\<rparr>) \<and>
   Map_get (userVotes (snd (voteMeme demo 1 1 Up))) (vkey KMeme 1 1) = Some Up \<and>
   fst (voteMeme (snd (voteMeme demo 1 1 Up)) 1 1 Up) = Inr meme1 \<and>
   fst (voteMeme (snd (voteMeme demo 1 1 Up)) 1 1 Down) = Inr (meme1\<lparr>upvotes := 0, downvotes := 1\<rparr>) \<and>
   memeCounters (snd (voteMeme (snd (voteMeme (snd (voteMeme (snd (voteMeme demo 1 1 Up)) 1 1 Up)) 1 1 Down)) 1 2 Up)) 1
     = Some (1, 1)"
proof -
  have m: "Map_get (memes demo) 1 = Some meme1"
    by (simp add: demo_memes)
  have f: "Map_get (userVotes demo) (vkey KMeme 1 1) = None" "Map_get (userVotes demo) (vkey KMeme 1 2) = None"
    by (simp_all add: demo_userVotes)
  have z: "upvotes meme1 = 0" "downvotes meme1 = 0"
    by (simp_all add: meme1_def)
  have a: "voteMeme demo 1 1 Up = (Inr (addTo Up 1 meme1),
      demo\<lparr>userVotes := Map_set (vkey KMeme 1 1) Up (userVotes demo),
           memes := Map_set 1 (addTo Up 1 meme1) (memes demo)\<rparr>)"
    using voteMeme_state_machine[OF m, of 1 Up] f by blast
  have m1: "Map_get (memes (snd (voteMeme demo 1 1 Up))) 1 = Some (addTo Up 1 meme1)"
    by (simp add: a update_conv')
  have u1: "Map_get (userVotes (snd (voteMeme demo 1 1 Up))) (vkey KMeme 1 1) = Some Up"
    by (simp add: a update_conv')
  have b: "fst (voteMeme (snd (voteMeme demo 1 1 Up)) 1 1 Up) = Inr (addTo Up (- 1) (addTo Up 1 meme1))"
    using voteMeme_state_machine[OF m1, of 1 Up] u1 by simp
  have c: "fst (voteMeme (snd (voteMeme demo 1 1 Up)) 1 1 Down) = Inr (addTo Down 1 (addTo Up (- 1) (addTo Up 1 meme1)))"
    using voteMeme_state_machine[OF m1, of 1 Down] u1 by simp
  have d: "memeCounters (snd (voteMeme (snd (voteMeme (snd (voteMeme (snd (voteMeme demo 1 1 Up)) 1 1 Up)) 1 1 Down)) 1 2 Up)) 1
     = Some (1, 1)"
    using voteMeme_state_machine[OF m, of 1 Up] f z by blast
  show ?thesis
    using m f z a u1 b c d by (simp add: meme1_def)
qed

text \<open>
  C4. For a resource that is in the store and any user, \<^verbatim>\<open>voteResource\<close> changes the
  signed \<open>votes\<close> counter by the signed value of the entry the vote leads to minus the
  signed value of the entry it found (up is 1, down is \<open>-1\<close>, no record is 0): a fresh
  vote adds 1 or \<open>-1\<close>, a switch adds 2 or \<open>-2\<close>, a toggle-off takes the old value away.
  From \<open>votes = 0\<close>, one user voting up, down and down again gives 1, \<open>-1\<close> and 0.
\<close>

theorem voteResource_signed_delta:
  assumes "Map_get (resources s) i = Some r"
  shows "voteResource s i uid v =
     (Inr (r\<lparr>r_votes := r_votes r + (signed (dest (Map_get (userVotes s) (vkey KResource i uid)) v)
                                       - signed (Map_get (userVotes s) (vkey KResource i uid)))\<rparr>),
      s\<lparr>userVotes := (if Map_get (userVotes s) (vkey KResource i uid) = Some v
                       then Map_delete (vkey KResource i uid) (userVotes s)
                       else Map_set (vkey KResource i uid) v (userVotes s)),
        resources := Map_set i
          (r\<lparr>r_votes := r_votes r + (signed (dest (Map_get (userVotes s) (vkey KResource i uid)) v)
                                     - signed (Map_get (userVotes s) (vkey KResource i uid)))\<rparr>)
          (resources s)\<rparr>) \<and>
   signed (dest None Up) - signed None = 1 \<and> signed (dest None Down) - signed None = - 1 \<and>
   signed (dest (Some Down) Up) - signed (Some Down) = 2 \<and>
   signed (dest (Some Up) Down) - signed (Some Up) = - 2 \<and>
   signed (dest (Some Up) Up) - signed (Some Up) = - 1 \<and>
   signed (dest (Some Down) Down) - signed (Some Down) = 1 \<and>
   (r_votes r = 0 \<and> Map_get (userVotes s) (vkey KResource i 1) = None \<longrightarrow>
      resourceVotes (snd (voteResource s i 1 Up)) i = Some 1 \<and>
      resourceVotes (snd (voteResource (snd (voteResource s i 1 Up)) i 1 Down)) i = Some (- 1) \<and>
      resourceVotes (snd (voteResource (snd (voteResource (snd (voteResource s i 1 Up)) i 1 Down)) i 1 Down)) i = Some 0)"
  using voteResource_delta[OF assms, of uid v] resource_scenario[OF assms]
  by (simp add: signed_def dest_def)

theorem voteResource_signed_delta_witness:
  "Map_get (resources demo) 2 = Some (mkResource (seeds ! 1) 2 1700000000000) \<and>
   r_votes (mkResource (seeds ! 1) 2 1700000000000) = 0 \<and>
   Map_get (userVotes demo) (vkey KResource 2 1) = None \<and>
   fst (voteResource demo 2 1 Down) = Inr ((mkResource (seeds ! 1) 2 1700000000000)\<lparr>r_votes := - 1\<rparr>) \<and>
   resourceVotes (snd (voteResource demo 2 1 Up)) 2 = Some 1 \<and>
   resourceVotes (snd (voteResource (snd (voteResource demo 2 1 Up)) 2 1 Down)) 2 = Some (- 1) \<and>
   resourceVotes (snd (voteResource (snd (voteResource (snd (voteResource demo 2 1 Up)) 2 1 Down)) 2 1 Down)) 2 = Some 0"
proof -
  have z: "r_votes (mkResource (seeds ! 1) 2 1700000000000) = 0"
    by (simp add: mkResource_def)
  have f: "Map_get (userVotes demo) (vkey KResource 2 1) = None"
    by (simp add: demo_userVotes)
  show ?thesis
    using voteResource_signed_delta[OF demo_resource_2, of 1 Down] z f
    by (simp add: demo_resource_2 signed_def dest_def)
qed

text \<open>
  C5. For a subject identity that is not in its table, \<^verbatim>\<open>voteMeme\<close>, \<^verbatim>\<open>voteComment\<close> and
  \<^verbatim>\<open>voteResource\<close> fail with their not-found error and the store afterwards is the
  store before: the ledger and every counter are unchanged.
\<close>

theorem vote_not_found:
  "(Map_get (memes s) i = None \<longrightarrow> voteMeme s i uid v = (Inl (Error ''Meme not found''), s)) \<and>
   (Map_get (comments s) i = None \<longrightarrow> voteComment s i uid v = (Inl (Error ''Comment not found''), s)) \<and>
   (Map_get (resources s) i = None \<longrightarrow> voteResource s i uid v = (Inl (Error ''Resource not found''), s))"
  by (simp add: voteMeme_def voteComment_def voteResource_def)

theorem vote_not_found_witness:
  "Map_get (memes demo) 99 = None \<and> Map_get (comments demo) 99 = None \<and> Map_get (resources demo) 99 = None \<and>
   voteMeme demo 99 7 Down = (Inl (Error ''Meme not found''), demo) \<and>
   voteComment demo 99 7 Up = (Inl (Error ''Comment not found''), demo) \<and>
   voteResource demo 99 7 Up = (Inl (Error ''Resource not found''), demo)"
proof -
  have n: "Map_get (memes demo) 99 = None" "Map_get (comments demo) 99 = None" "Map_get (resources demo) 99 = None"
    by (simp_all add: demo_memes demo_comments demo_resources init_store)
  show ?thesis
    using vote_not_found[of demo 99 7 Down] vote_not_found[of demo 99 7 Up] n by simp
qed

text \<open>
  C6 (as amended). A direction other than \<open>up\<close> and \<open>down\<close> sent to the meme or the
  resource vote route is answered with status 400 and the store is unchanged. The
  comment vote route reads no direction: whatever the request carries, \<open>down\<close> included,
  it casts \<open>up\<close> on the comment, which toggles the user's record, moves \<open>upvotes\<close> by one
  and answers with the comment. No invalid-direction error exists for comments.
\<close>

theorem direction_checks:
  "(bodyVote \<noteq> Some ''up'' \<and> bodyVote \<noteq> Some ''down'' \<longrightarrow>
      memeVoteRoute s i uid bodyVote = (Status 400 ''Invalid vote type'', s) \<and>
      resourceVoteRoute s i uid bodyVote = (Status 400 ''Invalid vote data'', s)) \<and>
   commentVoteRoute s i uid bodyVote = commentVoteRoute s i uid (Some ''up'') \<and>
   (Map_get (comments s) i = Some c \<longrightarrow>
      commentVoteRoute s i uid bodyVote =
        (Json (c\<lparr>c_upvotes := c_upvotes c + (if Map_get (userVotes s) (vkey KComment i uid) = Some Up then - 1 else 1)\<rparr>),
         s\<lparr>userVotes := (if Map_get (userVotes s) (vkey KComment i uid) = Some Up
                          then Map_delete (vkey KComment i uid) (userVotes s)
                          else Map_set (vkey KComment i uid) Up (userVotes s)),
           comments := Map_set i
             (c\<lparr>c_upvotes := c_upvotes c + (if Map_get (userVotes s) (vkey KComment i uid) = Some Up then - 1 else 1)\<rparr>)
             (comments s)\<rparr>))"
  using commentVoteRoute_stored[of s i c uid bodyVote]
  by (simp add: memeVoteRoute_def resourceVoteRoute_def) (simp add: commentVoteRoute_def)

theorem direction_checks_witness:
  "Some ''sideways'' \<noteq> Some ''up'' \<and> Some ''sideways'' \<noteq> Some ''down'' \<and>
   memeVoteRoute demo 1 7 (Some ''sideways'') = (Status 400 ''Invalid vote type'', demo) \<and>
   resourceVoteRoute demo 1 7 (Some ''sideways'') = (Status 400 ''Invalid vote data'', demo) \<and>
   Map_get (comments demo) 1 = Some comment1 \<and>
   fst (commentVoteRoute demo 1 7 (Some ''down'')) = Json (comment1\<lparr>c_upvotes := 1\<rparr>)"
proof -
  have c: "Map_get (comments demo) 1 = Some comment1"
    by (simp add: demo_comments)
  have n: "Some ''sideways'' \<noteq> Some ''up''" "Some ''sideways'' \<noteq> Some ''down''"
    by simp_all
  have r: "memeVoteRoute demo 1 7 (Some ''sideways'') = (Status 400 ''Invalid vote type'', demo)"
    "resourceVoteRoute demo 1 7 (Some ''sideways'') = (Status 400 ''Invalid vote data'', demo)"
    using direction_checks[of "Some ''sideways''" demo 1 7 comment1] n by blast+
  have "commentVoteRoute demo 1 7 (Some ''down'') =
        (Json (comment1\<lparr>c_upvotes := c_upvotes comment1 + (if Map_get (userVotes demo) (vkey KComment 1 7) = Some Up then - 1 else 1)\<rparr>),
         demo\<lparr>userVotes := (if Map_get (userVotes demo) (vkey KComment 1 7) = Some Up
                          then Map_delete (vkey KComment 1 7) (userVotes demo)
                          else Map_set (vkey KComment 1 7) Up (userVotes demo)),
           comments := Map_set 1
             (comment1\<lparr>c_upvotes := c_upvotes comment1 + (if Map_get (userVotes demo) (vkey KComment 1 7) = Some Up then - 1 else 1)\<rparr>)
             (comments demo)\<rparr>)"
    using direction_checks[of "Some ''down''" demo 1 7 comment1] c by blast
  then have "fst (commentVoteRoute demo 1 7 (Some ''down'')) = Json (comment1\<lparr>c_upvotes := 1\<rparr>)"
    by (simp add: demo_userVotes comment1_def)
  with c n r show ?thesis
    by simp
qed

theorem comment_down_counterexample:
  "Map_get (comments demo) 1 = Some comment1 \<and> c_upvotes comment1 = 0 \<and> userVotes demo = [] \<and>
   fst (commentVoteRoute demo 1 7 (Some ''down'')) = Json (comment1\<lparr>c_upvotes := 1\<rparr>) \<and>
   userVotes (snd (commentVoteRoute demo 1 7 (Some ''down''))) = [(''comment:1:user:7'', Up)] \<and>
   fst (voteComment demo 1 7 Down) = Inr (comment1\<lparr>c_upvotes := 1\<rparr>) \<and>
   userVotes (snd (voteComment demo 1 7 Down)) = [(''comment:1:user:7'', Down)]"
proof -
  have c: "Map_get (comments demo) 1 = Some comment1"
    by (simp add: demo_comments)
  have z: "c_upvotes comment1 = 0"
    by (simp add: comment1_def)
  show ?thesis
    by (simp add: c z commentVoteRoute_stored[OF c] voteComment_Some[OF c] castVote_def demo_userVotes vkey_comment_1_7)
qed

text \<open>
  C7. For a stored subject with no active record of the user, casting the same legal
  direction twice (either direction on a meme or a resource, \<open>up\<close> on a comment) returns
  the subject to its original counters and leaves no record for the subject and the
  user; the whole store is the store before.
\<close>

theorem toggle_twice_restores:
  "(Map_get (memes s) i = Some m \<and> Map_get (userVotes s) (vkey KMeme i uid) = None \<longrightarrow>
      Map_get (memes (snd (voteMeme (snd (voteMeme s i uid d)) i uid d))) i = Some m \<and>
      Map_get (userVotes (snd (voteMeme (snd (voteMeme s i uid d)) i uid d))) (vkey KMeme i uid) = None \<and>
      snd (voteMeme (snd (voteMeme s i uid d)) i uid d) = s) \<and>
   (Map_get (comments s) i = Some c \<and> Map_get (userVotes s) (vkey KComment i uid) = None \<longrightarrow>
      Map_get (comments (snd (voteComment (snd (voteComment s i uid Up)) i uid Up))) i = Some c \<and>
      Map_get (userVotes (snd (voteComment (snd (voteComment s i uid Up)) i uid Up))) (vkey KComment i uid) = None \<and>
      snd (voteComment (snd (voteComment s i uid Up)) i uid Up) = s) \<and>
   (Map_get (resources s) i = Some r \<and> Map_get (userVotes s) (vkey KResource i uid) = None \<longrightarrow>
      Map_get (resources (snd (voteResource (snd (voteResource s i uid d)) i uid d))) i = Some r \<and>
      Map_get (userVotes (snd (voteResource (snd (voteResource s i uid d)) i uid d))) (vkey KResource i uid) = None \<and>
      snd (voteResource (snd (voteResource s i uid d)) i uid d) = s)"
  by (simp add: voteMeme_twice voteComment_twice voteResource_twice)

theorem toggle_twice_restores_witness:
  "Map_get (memes demo) 2 = Some meme2 \<and> Map_get (userVotes demo) (vkey KMeme 2 7) = None \<and>
   Map_get (comments demo) 1 = Some comment1 \<and> Map_get (userVotes demo) (vkey KComment 1 7) = None \<and>
   Map_get (resources demo) 2 = Some (mkResource (seeds ! 1) 2 1700000000000) \<and>
   Map_get (userVotes demo) (vkey KResource 2 7) = None \<and>
   snd (voteMeme (snd (voteMeme demo 2 7 Down)) 2 7 Down) = demo \<and>
   snd (voteComment (snd (voteComment demo 1 7 Up)) 1 7 Up) = demo \<and>
   snd (voteResource (snd (voteResource demo 2 7 Down)) 2 7 Down) = demo"
proof -
  have h: "Map_get (memes demo) 2 = Some meme2" "Map_get (userVotes demo) (vkey KMeme 2 7) = None"
    "Map_get (comments demo) 1 = Some comment1" "Map_get (userVotes demo) (vkey KComment 1 7) = None"
    "Map_get (userVotes demo) (vkey KResource 2 7) = None"
    by (simp_all add: demo_memes demo_comments demo_userVotes)
  show ?thesis
    using toggle_twice_restores[of demo 2 meme2 7 Down]
      toggle_twice_restores[of demo 1 _ 7 _ comment1]
      toggle_twice_restores[of demo 2 _ 7 Down _ "mkResource (seeds ! 1) 2 1700000000000"]
      h demo_resource_2
    by simp
qed



text \<open>
  C9 (as amended). \<^verbatim>\<open>getMemes\<close> sorts the whole collection and then takes
  \<^verbatim>\<open>slice(offset, offset + limit)\<close> of it. For a non-negative offset and limit that is
  the first \<open>limit\<close> memes after dropping \<open>offset\<close>; an offset at or beyond the number of
  memes yields the empty sequence, whatever the limit, and nothing raises an error. In
  particular policy \<open>new\<close>, offset equal to the number of memes and limit 10 gives the
  empty sequence. A negative offset counts from the end of the sorted sequence and can
  return memes.
\<close>

theorem pagination:
  "getMemes s (Some lmt) (Some off) sortBy =
     map (withAuthor s)
       (Array_slice (sortMemes (case sortBy of None \<Rightarrow> ''hot'' | Some p \<Rightarrow> p) (Map_values (memes s)))
          off (off + lmt)) \<and>
   (0 \<le> off \<and> 0 \<le> lmt \<longrightarrow>
      getMemes s (Some lmt) (Some off) sortBy =
        map (withAuthor s)
          (take (nat lmt) (drop (nat off)
             (sortMemes (case sortBy of None \<Rightarrow> ''hot'' | Some p \<Rightarrow> p) (Map_values (memes s)))))) \<and>
   (int (length (memes s)) \<le> off \<longrightarrow> getMemes s limit (Some off) sortBy = []) \<and>
   getMemes s (Some 10) (Some (int (length (memes s)))) (Some ''new'') = []"
  by (simp add: getMemes_def slice_take_drop slice_past_end)

theorem pagination_witness:
  "(0::int) \<le> 1 \<and> int (length (memes demo)) \<le> 2 \<and>
   map m_id (getMemes demo (Some 1) (Some 1) (Some ''new'')) = [1] \<and>
   getMemes demo None (Some 2) (Some ''top'') = [] \<and>
   getMemes demo (Some 10) (Some (int (length (memes demo)))) (Some ''new'') = []"
proof -
  have z: "(0::int) \<le> 1"
    by simp
  have l: "int (length (memes demo)) \<le> 2"
    by (simp add: demo_memes)
  have a: "getMemes demo (Some 1) (Some 1) (Some ''new'') =
      map (withAuthor demo) (take (nat 1) (drop (nat 1)
        (sortMemes (case Some ''new'' of None \<Rightarrow> ''hot'' | Some p \<Rightarrow> p) (Map_values (memes demo)))))"
    using pagination[where s = demo and off = 1 and lmt = 1 and sortBy = "Some ''new''"] z
    by blast
  have b: "getMemes demo None (Some 2) (Some ''top'') = []"
    using pagination[where s = demo and off = 2 and sortBy = "Some ''top''" and limit = None] l
    by blast
  have c: "getMemes demo (Some 10) (Some (int (length (memes demo)))) (Some ''new'') = []"
    using pagination[where s = demo]
    by blast
  have "map m_id (getMemes demo (Some 1) (Some 1) (Some ''new'')) = [1]"
    unfolding a by (simp add: demo_memes sort_new_demo) (simp add: meme1_def)
  with z l b c show ?thesis
    by simp
qed

theorem negative_offset_counterexample:
  "map m_id (getMemes demo (Some 10) (Some (- 1)) (Some ''new'')) = [1]"
  by (simp add: getMemes_demo_negative meme1_def)

text \<open>
  C10. A \<open>sortBy\<close> string other than \<open>new\<close> and \<open>top\<close> is not rejected and gives exactly
  the result of \<open>hot\<close>, as does an omitted argument: the hot comparator is the last
  branch of the chain.
\<close>

theorem unknown_policy_is_hot:
  "sortBy \<noteq> ''new'' \<Longrightarrow> sortBy \<noteq> ''top'' \<Longrightarrow>
   getMemes s limit offset (Some sortBy) = getMemes s limit offset (Some ''hot'') \<and>
   getMemes s limit offset None = getMemes s limit offset (Some ''hot'') \<and>
   sortMemes sortBy ms = Array_sort cmp_hot ms"
  by (simp add: getMemes_def sortMemes_def)

theorem unknown_policy_is_hot_witness:
  "''rising'' \<noteq> ''new'' \<and> ''rising'' \<noteq> ''top'' \<and>
   getMemes demoHot None None (Some ''rising'') = getMemes demoHot None None (Some ''hot'') \<and>
   getMemes demoHot None None None = getMemes demoHot None None (Some ''hot'') \<and>
   map m_id (getMemes demoHot None None (Some ''rising'')) = [2, 1]"
proof -
  have n: "''rising'' \<noteq> ''new''" "''rising'' \<noteq> ''top''"
    by simp_all
  have g: "map m_id (getMemes demoHot None None None) = [2, 1]"
    by (simp add: getMemes_demoHot withAuthor_def Meme.defs meme1_def meme2_def)
  from unknown_policy_is_hot[OF n, of demoHot None None "[]"]
  have e: "getMemes demoHot None None (Some ''rising'') = getMemes demoHot None None (Some ''hot'')"
    "getMemes demoHot None None None = getMemes demoHot None None (Some ''hot'')"
    by simp_all
  from g have "map m_id (getMemes demoHot None None (Some ''rising'')) = [2, 1]"
    by (simp only: e)
  with n e show ?thesis
    by simp
qed

end
